theory Spec2Isabelle
  imports Complex_Main
begin

section \<open>Speed limit resolver (speedLimitService.js)\<close>

text \<open>
  JavaScript numbers are modelled by exact numbers: counts and parsed limits by \<open>nat\<close>,
  millisecond clocks by \<open>int\<close>, coordinates and speeds by \<open>real\<close>. Strings are ASCII
  character lists. \<open>Math.round x\<close> is \<open>\<lfloor>x + 1/2\<rfloor>\<close>.
\<close>

subsection \<open>Data\<close>

datatype limit_source = Osm | Legal | LegalValidated | Default | DefaultError

text \<open>What the fields \<open>speedLimit\<close> and \<open>legalLimit\<close> can hold: a number of km/h, or a
  value that is not a number at all, which is what indexing the limit table with the name of
  a property every object inherits yields (a function, or the prototype object). Such a
  value is truthy, and arithmetic on it gives NaN.\<close>

datatype js_limit = Kmh nat | Inherited

record SpeedLimitInfo =
  speedLimit :: js_limit
  source :: limit_source
  osmSpeed :: "nat option"
  roadType :: "string option"
  legalLimit :: js_limit

text \<open>The tags of one Overpass element; an absent tag is \<open>None\<close>.\<close>

record osm_tags =
  highway :: "string option"
  maxspeed :: "string option"

text \<open>One element of \<open>response.data.elements\<close>; \<open>tags = None\<close> is an element without a
  \<open>tags\<close> object, on which \<open>road.tags.highway\<close> throws.\<close>

record osm_element =
  tags :: "osm_tags option"

text \<open>What \<open>axios.post\<close> does: it rejects (network error, timeout, error status), or it
  resolves; \<open>Resolved None\<close> is a body without a usable \<open>elements\<close> array.\<close>

datatype overpass_outcome = Rejected | Resolved "osm_element list option"

datatype js_error = NetworkError | TypeError

subsection \<open>The legal limit table\<close>

definition LEBANON_LEGAL_LIMITS :: "string \<Rightarrow> nat option" where
  "LEBANON_LEGAL_LIMITS k =
     (if k = ''motorway'' then Some 120
      else if k = ''trunk'' then Some 100
      else if k = ''primary'' then Some 80
      else if k = ''secondary'' then Some 80
      else if k = ''tertiary'' then Some 60
      else if k = ''residential'' then Some 50
      else if k = ''living_street'' then Some 25
      else if k = ''service'' then Some 25
      else if k = ''track'' then Some 25
      else if k = ''unclassified'' then Some 50
      else if k = ''default'' then Some 60
      else None)"

definition LEGAL_DEFAULT :: nat where
  "LEGAL_DEFAULT = 60"

text \<open>\<open>LEBANON_LEGAL_LIMITS\<close> is a plain object, so besides its own eleven keys a lookup
  finds the properties of \<open>Object.prototype\<close> (ECMAScript, with its annex B).\<close>

definition objectPrototypeKeys :: "string list" where
  "objectPrototypeKeys =
     [''constructor'', ''hasOwnProperty'', ''isPrototypeOf'', ''propertyIsEnumerable'',
      ''toLocaleString'', ''toString'', ''valueOf'', ''__proto__'',
      ''__defineGetter__'', ''__defineSetter__'', ''__lookupGetter__'', ''__lookupSetter__'']"

text \<open>\<open>LEBANON_LEGAL_LIMITS[roadType] || LEBANON_LEGAL_LIMITS.default\<close>: an own key gives
  its number, an inherited name gives the inherited (truthy) value, and only a name that is
  neither, or a missing \<open>highway\<close> tag, gives the default.\<close>

definition legalLimitFor :: "string option \<Rightarrow> js_limit" where
  "legalLimitFor rt =
     (case rt of
        None \<Rightarrow> Kmh LEGAL_DEFAULT
      | Some k \<Rightarrow> (case LEBANON_LEGAL_LIMITS k of
                    Some v \<Rightarrow> if v = 0 then Kmh LEGAL_DEFAULT else Kmh v
                  | None \<Rightarrow> if k \<in> set objectPrototypeKeys then Inherited
                            else Kmh LEGAL_DEFAULT))"

subsection \<open>Parsing the maxspeed tag\<close>

definition isDigit :: "char \<Rightarrow> bool" where
  "isDigit c = (c \<in> set ''0123456789'')"

definition digitValue :: "char \<Rightarrow> nat" where
  "digitValue c = of_char c - 48"

text \<open>\<open>maxspeedTag.match(/(\d+)/)\<close>: the first maximal run of digits, if there is one.\<close>

definition speedMatch :: "string \<Rightarrow> string option" where
  "speedMatch s =
     (let ds = takeWhile isDigit (dropWhile (\<lambda>c. \<not> isDigit c) s)
      in if ds = [] then None else Some ds)"

text \<open>\<open>parseInt(digits, 10)\<close> on a non-empty run of digits.\<close>

definition parseInt :: "string \<Rightarrow> nat" where
  "parseInt ds = foldl (\<lambda>acc c. 10 * acc + digitValue c) 0 ds"

definition toLowerChar :: "char \<Rightarrow> char" where
  "toLowerChar c =
     (case map_of (zip ''ABCDEFGHIJKLMNOPQRSTUVWXYZ'' ''abcdefghijklmnopqrstuvwxyz'') c of
        Some l \<Rightarrow> l
      | None \<Rightarrow> c)"

definition toLowerCase :: "string \<Rightarrow> string" where
  "toLowerCase s = map toLowerChar s"

fun includes_str :: "string \<Rightarrow> string \<Rightarrow> bool" where
  "includes_str [] p = (p = [])"
| "includes_str (c # cs) p = (take (length p) (c # cs) = p \<or> includes_str cs p)"

text \<open>\<open>Math.round(osmSpeed * 1.60934)\<close>\<close>

definition mphToKmh :: "nat \<Rightarrow> nat" where
  "mphToKmh n = (n * 160934 + 50000) div 100000"

definition parseOsmSpeed :: "string option \<Rightarrow> nat option" where
  "parseOsmSpeed maxspeedTag =
     (case maxspeedTag of
        None \<Rightarrow> None
      | Some t \<Rightarrow>
          if t = [] then None
          else (case speedMatch t of
                  None \<Rightarrow> None
                | Some ds \<Rightarrow>
                    if includes_str (toLowerCase t) ''mph''
                    then Some (mphToKmh (parseInt ds))
                    else Some (parseInt ds)))"

subsection \<open>getSpeedLimit\<close>

text \<open>\<open>Math.abs(a - b)\<close> on two numbers.\<close>

definition absDiff :: "nat \<Rightarrow> nat \<Rightarrow> nat" where
  "absDiff a b = (if a \<le> b then b - a else a - b)"

text \<open>\<open>Math.abs(osmSpeed - legalLimit) <= 20\<close>: the difference from a value that is not a
  number is NaN, and no comparison with NaN holds.\<close>

definition differenceWithin20 :: "nat \<Rightarrow> js_limit \<Rightarrow> bool" where
  "differenceWithin20 v legal =
     (case legal of Kmh l \<Rightarrow> absDiff v l \<le> 20 | Inherited \<Rightarrow> False)"

text \<open>The decision between the posted and the legal limit, for a road that was found.\<close>

definition decide :: "nat option \<Rightarrow> string option \<Rightarrow> SpeedLimitInfo" where
  "decide osm rt =
     (let legal = legalLimitFor rt in
      case osm of
        None \<Rightarrow>
          \<lparr>speedLimit = legal, source = Legal, osmSpeed = None, roadType = rt,
           legalLimit = legal\<rparr>
      | Some v \<Rightarrow>
          if differenceWithin20 v legal
          then \<lparr>speedLimit = Kmh v, source = Osm, osmSpeed = Some v, roadType = rt,
                legalLimit = legal\<rparr>
          else \<lparr>speedLimit = legal, source = LegalValidated, osmSpeed = Some v,
                roadType = rt, legalLimit = legal\<rparr>)"

definition defaultInfo :: "limit_source \<Rightarrow> SpeedLimitInfo" where
  "defaultInfo src =
     \<lparr>speedLimit = Kmh LEGAL_DEFAULT, source = src, osmSpeed = None, roadType = None,
      legalLimit = Kmh LEGAL_DEFAULT\<rparr>"

text \<open>The body of the \<open>try\<close> block: \<open>Inl\<close> is an exception thrown inside it.\<close>

definition getSpeedLimit_try :: "overpass_outcome \<Rightarrow> js_error + SpeedLimitInfo" where
  "getSpeedLimit_try r =
     (case r of
        Rejected \<Rightarrow> Inl NetworkError
      | Resolved None \<Rightarrow> Inr (defaultInfo Default)
      | Resolved (Some []) \<Rightarrow> Inr (defaultInfo Default)
      | Resolved (Some (road # _)) \<Rightarrow>
          (case tags road of
             None \<Rightarrow> Inl TypeError
           | Some tg \<Rightarrow> Inr (decide (parseOsmSpeed (maxspeed tg)) (highway tg))))"

text \<open>The whole function with its \<open>catch\<close>: the result of the returned promise,
  \<open>Inl\<close> for a rejection.\<close>

definition getSpeedLimit :: "overpass_outcome \<Rightarrow> js_error + SpeedLimitInfo" where
  "getSpeedLimit r =
     (case getSpeedLimit_try r of
        Inl e \<Rightarrow> Inr (defaultInfo DefaultError)
      | Inr info \<Rightarrow> Inr info)"

subsection \<open>The cache\<close>

record cache_entry =
  data :: SpeedLimitInfo
  timestamp :: int

type_synonym cache_key = "int \<times> int"

text \<open>A JavaScript \<open>Map\<close> is an association list in insertion order with distinct keys.\<close>

type_synonym cache = "(cache_key \<times> cache_entry) list"

definition CACHE_DURATION_MS :: int where
  "CACHE_DURATION_MS = 120000"

definition mathRound :: "real \<Rightarrow> int" where
  "mathRound x = \<lfloor>x + 1 / 2\<rfloor>"

text \<open>The key string \<open>`${lat},${lng}`\<close> is determined by the two rounded numbers.\<close>

definition cacheKey :: "real \<Rightarrow> real \<Rightarrow> cache_key" where
  "cacheKey latitude longitude = (mathRound (latitude * 1000), mathRound (longitude * 1000))"

definition map_get :: "cache \<Rightarrow> cache_key \<Rightarrow> cache_entry option" where
  "map_get m k = map_of m k"

text \<open>\<open>Map.set\<close>: an existing key keeps its position, a new key goes last.\<close>

fun map_set :: "cache_key \<Rightarrow> cache_entry \<Rightarrow> cache \<Rightarrow> cache" where
  "map_set k v [] = [(k, v)]"
| "map_set k v (p # ps) = (if fst p = k then (k, v) # ps else p # map_set k v ps)"

definition map_delete :: "cache_key \<Rightarrow> cache \<Rightarrow> cache" where
  "map_delete k m = filter (\<lambda>p. fst p \<noteq> k) m"

text \<open>The statements after the \<open>await\<close>: store, then drop the first key when the size
  exceeds 100.\<close>

definition cacheStore :: "cache_key \<Rightarrow> SpeedLimitInfo \<Rightarrow> int \<Rightarrow> cache \<Rightarrow> cache" where
  "cacheStore k d now m =
     (let m1 = map_set k \<lparr>data = d, timestamp = now\<rparr> m
      in if length m1 > 100
         then (case m1 of [] \<Rightarrow> m1 | p # _ \<Rightarrow> map_delete (fst p) m1)
         else m1)"

text \<open>The module state: the cache, and the log of external queries issued so far.\<close>

record resolver_state =
  speedLimitCache :: cache
  queries :: "(real \<times> real) list"

text \<open>One call. \<open>now\<close> is \<open>Date.now()\<close> at the lookup, \<open>r\<close> what the external source
  answers if it is asked, \<open>stored\<close> is \<open>Date.now()\<close> when the answer is cached.\<close>

definition getSpeedLimitCached ::
  "real \<Rightarrow> real \<Rightarrow> int \<Rightarrow> overpass_outcome \<Rightarrow> int \<Rightarrow> resolver_state
     \<Rightarrow> (js_error + SpeedLimitInfo) \<times> resolver_state" where
  "getSpeedLimitCached latitude longitude now r stored s =
     (let k = cacheKey latitude longitude;
          hit = (case map_get (speedLimitCache s) k of
                   None \<Rightarrow> None
                 | Some c \<Rightarrow> if now - timestamp c < CACHE_DURATION_MS then Some (data c)
                             else None)
      in case hit of
           Some d \<Rightarrow> (Inr d, s)
         | None \<Rightarrow>
             (let s1 = s\<lparr>queries := queries s @ [(latitude, longitude)]\<rparr>
              in case getSpeedLimit r of
                   Inl e \<Rightarrow> (Inl e, s1)
                 | Inr d \<Rightarrow>
                     (Inr d, s1\<lparr>speedLimitCache := cacheStore k d stored (speedLimitCache s1)\<rparr>)))"

record cached_call =
  call_lat :: real
  call_lng :: real
  call_now :: int
  call_outcome :: overpass_outcome
  call_stored :: int

definition do_call :: "cached_call \<Rightarrow> resolver_state \<Rightarrow> resolver_state" where
  "do_call c s =
     snd (getSpeedLimitCached (call_lat c) (call_lng c) (call_now c) (call_outcome c)
            (call_stored c) s)"

definition empty_resolver :: resolver_state where
  "empty_resolver = \<lparr>speedLimitCache = [], queries = []\<rparr>"

text \<open>The state after a sequence of calls, starting from the freshly loaded module.\<close>

definition run_calls :: "cached_call list \<Rightarrow> resolver_state" where
  "run_calls cs = foldl (\<lambda>s c. do_call c s) empty_resolver cs"

section \<open>Trip monitoring (the App component)\<close>

text \<open>
  The component's refs and the state it reads back are the fields of one record. Each
  callback is a function from the state before it runs to the state after it; what the
  clock and the backend contribute is an argument. State setters that only mirror a ref
  for display (the two harsh counters, the current limit, the violation count) are left
  out. Local constants of the location callback that share a name with a field carry a
  prime.
\<close>

subsection \<open>Data\<close>

record loc =
  lat :: real
  lng :: real
  time :: int

record bufpoint = loc +
  speed :: real

datatype harsh_kind = Braking | Acceleration

text \<open>An entry of \<open>harshEventsRef\<close>. \<open>ev_timestamp\<close> is the millisecond value that
  \<open>new Date(now).toISOString()\<close> renders.\<close>

record harsh_event =
  ev_type :: harsh_kind
  ev_timestamp :: int
  ev_latitude :: real
  ev_longitude :: real
  ev_speed :: real

text \<open>\<open>position.coords\<close>: a field is \<open>None\<close> when it is null, undefined or (for the
  coordinates) not a number.\<close>

record position_coords =
  latitude :: "real option"
  longitude :: "real option"
  accuracy :: "real option"
  speedMs :: "real option"

record position =
  coords :: position_coords
  pos_timestamp :: "int option"

datatype TripStatus = idle | driving

record app_state =
  status :: TripStatus
  speedKmh :: real
  safetyScore :: "real option"
  error :: "string option"
  isStartingTrip :: bool
  tripIdRef :: "nat option"
  lastLocationRef :: "loc option"
  speedSumRef :: real
  speedCountRef :: nat
  tripLocationBuffer :: "bufpoint list"
  lastHarshBrakeTimeRef :: int
  lastHarshAccelTimeRef :: int
  harshBrakeCountRef :: nat
  harshAccelCountRef :: nat
  harshEventsRef :: "harsh_event list"
  accelerometerMagnitudeRef :: real
  crashDetectedRef :: bool
  crashLatRef :: "real option"
  crashLngRef :: "real option"
  speedBasedCrashRef :: bool
  sensorBasedCrashRef :: bool
  speedingDurationRef :: real
  speedingViolationsRef :: nat
  maxSpeedOverLimitRef :: real
  lastSpeedCheckTimeRef :: int
  currentSpeedLimitRef :: "js_limit option"
  wasSpeedingRef :: bool
  speedingStartTimeRef :: "int option"
  smoothedSpeedRef :: real
  recentSpeedSamplesRef :: "(real \<times> int) list"
  autoStartInProgressRef :: bool

text \<open>The state of a freshly mounted component.\<close>

definition initial_state :: app_state where
  "initial_state =
     \<lparr>status = idle, speedKmh = 0, safetyScore = None, error = None,
      isStartingTrip = False, tripIdRef = None, lastLocationRef = None,
      speedSumRef = 0, speedCountRef = 0, tripLocationBuffer = [],
      lastHarshBrakeTimeRef = 0, lastHarshAccelTimeRef = 0,
      harshBrakeCountRef = 0, harshAccelCountRef = 0, harshEventsRef = [],
      accelerometerMagnitudeRef = 9.8, crashDetectedRef = False,
      crashLatRef = None, crashLngRef = None,
      speedBasedCrashRef = False, sensorBasedCrashRef = False,
      speedingDurationRef = 0, speedingViolationsRef = 0, maxSpeedOverLimitRef = 0,
      lastSpeedCheckTimeRef = 0, currentSpeedLimitRef = None,
      wasSpeedingRef = False, speedingStartTimeRef = None,
      smoothedSpeedRef = 0, recentSpeedSamplesRef = [],
      autoStartInProgressRef = False\<rparr>"

subsection \<open>Geometry\<close>

text \<open>\<open>Math.atan2 y x\<close> on finite arguments.\<close>

definition atan2 :: "real \<Rightarrow> real \<Rightarrow> real" where
  "atan2 y x =
     (if x > 0 then arctan (y / x)
      else if x < 0 then (if y \<ge> 0 then arctan (y / x) + pi else arctan (y / x) - pi)
      else if y > 0 then pi / 2
      else if y < 0 then - (pi / 2)
      else 0)"

definition distanceKm :: "real \<Rightarrow> real \<Rightarrow> real \<Rightarrow> real \<Rightarrow> real" where
  "distanceKm lat1 lng1 lat2 lng2 =
     (let R = 6371;
          dLat = ((lat2 - lat1) * pi) / 180;
          dLng = ((lng2 - lng1) * pi) / 180;
          a = (sin (dLat / 2))\<^sup>2 +
              cos ((lat1 * pi) / 180) * cos ((lat2 * pi) / 180) * (sin (dLng / 2))\<^sup>2;
          c = 2 * atan2 (sqrt a) (sqrt (1 - a))
      in R * c)"

text \<open>\<open>location.coords.accuracy || 999\<close>: a zero accuracy counts as missing here.\<close>

definition isGpsGood :: "real option \<Rightarrow> int \<Rightarrow> bool" where
  "isGpsGood acc timeSinceLastUpdate =
     (let accuracy' = (case acc of None \<Rightarrow> 999 | Some v \<Rightarrow> if v = 0 then 999 else v)
      in if accuracy' \<le> 20 then True
         else if accuracy' \<le> 30 \<and> timeSinceLastUpdate \<le> 3000 then True
         else False)"

subsection \<open>Starting and ending a trip\<close>

datatype create_outcome = CreateFailed | Created nat

datatype end_outcome = EndFailed | Ended "real option"

text \<open>The assignments that follow a successful \<open>createTrip\<close>.\<close>

definition resetAggregates :: "nat \<Rightarrow> app_state \<Rightarrow> app_state" where
  "resetAggregates tid s =
     s\<lparr>tripIdRef := Some tid,
       tripLocationBuffer := [],
       speedSumRef := 0,
       speedCountRef := 0,
       harshBrakeCountRef := 0,
       harshAccelCountRef := 0,
       harshEventsRef := [],
       lastHarshBrakeTimeRef := 0,
       lastHarshAccelTimeRef := 0,
       crashDetectedRef := False,
       crashLatRef := None,
       crashLngRef := None,
       speedBasedCrashRef := False,
       sensorBasedCrashRef := False,
       speedingDurationRef := 0,
       speedingViolationsRef := 0,
       maxSpeedOverLimitRef := 0,
       lastSpeedCheckTimeRef := 0,
       currentSpeedLimitRef := None,
       wasSpeedingRef := False,
       speedingStartTimeRef := None,
       status := driving,
       safetyScore := None\<rparr>"

text \<open>\<open>handleStartTrip\<close> up to the \<open>await createTrip\<close>. The flag tells whether
  \<open>createTrip\<close> was called. \<open>seen\<close> is the value of \<open>isStartingTrip\<close> the running closure
  reads.\<close>

definition handleStartTrip_begin :: "bool \<Rightarrow> app_state \<Rightarrow> app_state \<times> bool" where
  "handleStartTrip_begin seen s =
     (if seen then (s, False)
      else
        (let s1 = s\<lparr>error := None\<rparr>
         in case lastLocationRef s1 of
              None \<Rightarrow> (s1\<lparr>error := Some ''Wait for location''\<rparr>, False)
            | Some pos \<Rightarrow> (s1\<lparr>isStartingTrip := True\<rparr>, True)))"

text \<open>\<open>handleStartTrip\<close> from the point where \<open>createTrip\<close> settles, with its
  \<open>catch\<close> and \<open>finally\<close>. The error text stands for \<open>e?.message || 'Failed to start trip'\<close>;
  the foreground service and the battery prompt are outside the model.\<close>

definition handleStartTrip_resume :: "create_outcome \<Rightarrow> app_state \<Rightarrow> app_state" where
  "handleStartTrip_resume r s =
     (let s1 = (case r of
                  Created tid \<Rightarrow> resetAggregates tid s
                | CreateFailed \<Rightarrow> s\<lparr>error := Some ''Failed to start trip''\<rparr>)
      in s1\<lparr>isStartingTrip := False, autoStartInProgressRef := False\<rparr>)"

text \<open>The whole of \<open>handleStartTrip\<close>, with nothing running during the \<open>await\<close>.
  \<open>isStartingTrip\<close> is a constant of the render that created the running handler, not a
  read of the current state, so it is an argument: the handler of the button is the one of
  the last render, the handler the location callback calls is the one of the render in
  which the watch was set up, where the value is false.\<close>

definition handleStartTrip :: "bool \<Rightarrow> create_outcome \<Rightarrow> app_state \<Rightarrow> app_state" where
  "handleStartTrip seen r s =
     (case handleStartTrip_begin seen s of
        (s1, called) \<Rightarrow> if called then handleStartTrip_resume r s1 else s1)"

text \<open>\<open>if (speedingStartTimeRef.current)\<close>: null and 0 are both falsy.\<close>

definition truthyTime :: "int option \<Rightarrow> int option" where
  "truthyTime t = (case t of None \<Rightarrow> None | Some v \<Rightarrow> if v = 0 then None else Some v)"

text \<open>\<open>handleEndTrip\<close>; \<open>now\<close> is the clock at the finalisation, \<open>r\<close> what \<open>endTrip\<close>
  does (the score it returns, if any). The average speed and the distance it sends are
  computed from the state and change nothing in it.\<close>

definition handleEndTrip :: "int \<Rightarrow> end_outcome \<Rightarrow> app_state \<Rightarrow> app_state" where
  "handleEndTrip now r s =
     (case tripIdRef s of
        None \<Rightarrow> s
      | Some tid \<Rightarrow>
          (let s1 = s\<lparr>error := None\<rparr>
           in case lastLocationRef s1 of
                None \<Rightarrow> s1\<lparr>error := Some ''Wait for location''\<rparr>
              | Some pos \<Rightarrow>
                  (let s2 = (case truthyTime (speedingStartTimeRef s1) of
                               None \<Rightarrow> s1
                             | Some t0 \<Rightarrow>
                                 if wasSpeedingRef s1
                                 then s1\<lparr>speedingDurationRef :=
                                           speedingDurationRef s1 + real_of_int (now - t0) / 1000,
                                         wasSpeedingRef := False\<rparr>
                                 else s1)
                   in case r of
                        EndFailed \<Rightarrow> s2\<lparr>error := Some ''Failed to end trip''\<rparr>
                      | Ended sc \<Rightarrow>
                          s2\<lparr>safetyScore := Some (case sc of None \<Rightarrow> 0 | Some v \<Rightarrow> v),
                             status := idle,
                             tripIdRef := None,
                             tripLocationBuffer := [],
                             harshEventsRef := [],
                             autoStartInProgressRef := False\<rparr>)))"

subsection \<open>The location callback\<close>

text \<open>\<open>typeof ts === 'number' ? (ts < 1e12 ? ts * 1000 : ts) : Date.now()\<close>\<close>

definition sampleTime :: "position \<Rightarrow> int \<Rightarrow> int" where
  "sampleTime p dateNow =
     (case pos_timestamp p of
        None \<Rightarrow> dateNow
      | Some ts \<Rightarrow> if ts < 1000000000000 then ts * 1000 else ts)"

text \<open>\<open>location.coords.accuracy ?? 999\<close>\<close>

definition accuracyOf :: "position \<Rightarrow> real" where
  "accuracyOf p = (case accuracy (coords p) of None \<Rightarrow> 999 | Some a \<Rightarrow> a)"

definition coordsSpeedKmh :: "position \<Rightarrow> real option" where
  "coordsSpeedKmh p =
     (case speedMs (coords p) of
        None \<Rightarrow> None
      | Some v \<Rightarrow> if v \<ge> 0 then Some (v * 3.6) else None)"

text \<open>The local \<open>speed\<close> (and so \<open>rawSpeed\<close>) of one callback run; \<open>prev\<close> is
  \<open>lastLocationRef.current\<close> on entry.\<close>

definition rawSpeed :: "loc option \<Rightarrow> real \<Rightarrow> real \<Rightarrow> int \<Rightarrow> real \<Rightarrow> real option \<Rightarrow> real" where
  "rawSpeed prev latitude' longitude' time' accuracy' cSpeedKmh =
     (case cSpeedKmh of
        Some v \<Rightarrow> v
      | None \<Rightarrow>
          (case prev of
             None \<Rightarrow> 0
           | Some pv \<Rightarrow>
               if time' - time pv \<ge> 1500
               then
                 (let distKm = distanceKm (lat pv) (lng pv) latitude' longitude';
                      timeHours = real_of_int (time' - time pv) / 1000 / 3600;
                      accuracyOk = (accuracy' \<le> 35 \<or> accuracy' > 500)
                  in if timeHours > 0 \<and> distKm \<ge> 0.015 \<and> accuracyOk
                     then distKm / timeHours else 0)
               else 0))"

text \<open>Smoothing, the displayed speed, and the running sum and count of the trip.\<close>

definition updateSpeed :: "real \<Rightarrow> app_state \<Rightarrow> app_state" where
  "updateSpeed speed' s =
     (let sm0 = smoothedSpeedRef s * (1 - 0.35) + speed' * 0.35;
          sm = (if speed' < 2 then speed' else sm0);
          s1 = s\<lparr>smoothedSpeedRef := sm,
                 speedKmh := real_of_int (mathRound (sm * 10)) / 10\<rparr>
      in if tripIdRef s1 \<noteq> None
         then s1\<lparr>speedSumRef := speedSumRef s1 + speed',
                 speedCountRef := speedCountRef s1 + 1\<rparr>
         else s1)"

definition updateLastLocation :: "loc option \<Rightarrow> real \<Rightarrow> real \<Rightarrow> int \<Rightarrow> app_state \<Rightarrow> app_state" where
  "updateLastLocation prev latitude' longitude' time' s =
     (let moved = (case prev of
                     None \<Rightarrow> True
                   | Some pv \<Rightarrow> distanceKm (lat pv) (lng pv) latitude' longitude' \<ge> 0.005)
      in if moved \<or> lastLocationRef s = None
         then s\<lparr>lastLocationRef := Some \<lparr>lat = latitude', lng = longitude', time = time'\<rparr>\<rparr>
         else s)"

text \<open>Automatic start while idle: sustained speed over the last samples. The call of
  \<open>handleStartTrip\<close> runs up to its \<open>await\<close>. The handler called here was created when
  the watch was set up, so the \<open>isStartingTrip\<close> it reads is false whatever the current
  state says.\<close>

definition autoStart :: "real \<Rightarrow> int \<Rightarrow> app_state \<Rightarrow> app_state" where
  "autoStart rawSpeed' time' s =
     (if tripIdRef s = None \<and> \<not> autoStartInProgressRef s
      then
        (let recent = filter (\<lambda>smp. time' - snd smp \<le> 30000)
                        (recentSpeedSamplesRef s @ [(rawSpeed', time')]);
             s1 = s\<lparr>recentSpeedSamplesRef := recent\<rparr>;
             last10 = filter (\<lambda>smp. time' - snd smp \<le> 12000) recent
         in if length last10 \<ge> 3
            then
              (let avg = sum_list (map fst last10) / real (length last10)
               in if avg \<ge> 15
                  then fst (handleStartTrip_begin False
                              (s1\<lparr>autoStartInProgressRef := True\<rparr>))
                  else s1)
            else s1)
      else s)"

text \<open>Which harsh event the sample is a candidate for: \<open>(countBrake, countAccel)\<close>.\<close>

definition harshDecision :: "bool \<Rightarrow> bool \<Rightarrow> real \<Rightarrow> real \<Rightarrow> bool \<times> bool" where
  "harshDecision gpsGood sensorFlagged prevSpeed rawSpeed' =
     (let speedDrop = prevSpeed - rawSpeed';
          speedRise = rawSpeed' - prevSpeed;
          speedDropPercent = (if prevSpeed > 0 then (speedDrop / prevSpeed) * 100 else 0);
          speedRisePercent = (if prevSpeed > 0 then (speedRise / prevSpeed) * 100 else 0);
          speedFlaggedBrake = (speedDropPercent \<ge> 30);
          speedFlaggedAccel = (speedRisePercent \<ge> 30)
      in if gpsGood
         then (speedFlaggedBrake \<and> sensorFlagged, speedFlaggedAccel \<and> sensorFlagged)
         else if sensorFlagged
              then (if speedFlaggedBrake then (True, False)
                    else if speedFlaggedAccel then (False, True)
                    else (True, False))
              else (False, False))"

definition recordBrake :: "int \<Rightarrow> real \<Rightarrow> real \<Rightarrow> real \<Rightarrow> app_state \<Rightarrow> app_state" where
  "recordBrake now latitude' longitude' rawSpeed' s =
     s\<lparr>harshBrakeCountRef := harshBrakeCountRef s + 1,
       lastHarshBrakeTimeRef := now,
       harshEventsRef := harshEventsRef s @
         [\<lparr>ev_type = Braking, ev_timestamp = now, ev_latitude = latitude',
           ev_longitude = longitude', ev_speed = rawSpeed'\<rparr>]\<rparr>"

definition recordAccel :: "int \<Rightarrow> real \<Rightarrow> real \<Rightarrow> real \<Rightarrow> app_state \<Rightarrow> app_state" where
  "recordAccel now latitude' longitude' rawSpeed' s =
     s\<lparr>harshAccelCountRef := harshAccelCountRef s + 1,
       lastHarshAccelTimeRef := now,
       harshEventsRef := harshEventsRef s @
         [\<lparr>ev_type = Acceleration, ev_timestamp = now, ev_latitude = latitude',
           ev_longitude = longitude', ev_speed = rawSpeed'\<rparr>]\<rparr>"

text \<open>"Apply cooldown and increment".\<close>

definition applyCooldown ::
  "bool \<Rightarrow> bool \<Rightarrow> int \<Rightarrow> real \<Rightarrow> real \<Rightarrow> real \<Rightarrow> app_state \<Rightarrow> app_state" where
  "applyCooldown countBrake countAccel now latitude' longitude' rawSpeed' s =
     (let s1 = (if countBrake \<and> now - lastHarshBrakeTimeRef s \<ge> 3000
                then recordBrake now latitude' longitude' rawSpeed' s else s)
      in if countAccel \<and> now - lastHarshAccelTimeRef s1 \<ge> 3000
         then recordAccel now latitude' longitude' rawSpeed' s1 else s1)"

text \<open>Harsh braking and acceleration detection, inside its time window.\<close>

definition detectHarsh ::
  "loc \<Rightarrow> position \<Rightarrow> int \<Rightarrow> real \<Rightarrow> real \<Rightarrow> real \<Rightarrow> real \<Rightarrow> app_state \<Rightarrow> app_state" where
  "detectHarsh pv p time' latitude' longitude' rawSpeed' prevSpeed s =
     (let timeDeltaSec = real_of_int (time' - time pv) / 1000
      in if timeDeltaSec \<ge> 0.5 \<and> timeDeltaSec \<le> 5
         then
           (let gpsGood = isGpsGood (accuracy (coords p)) (time' - time pv);
                sensorFlagged = (accelerometerMagnitudeRef s > 13);
                cnt = harshDecision gpsGood sensorFlagged prevSpeed rawSpeed'
            in applyCooldown (fst cnt) (snd cnt) time' latitude' longitude' rawSpeed' s)
         else s)"

text \<open>"Crash detection (speed-based)".\<close>

definition detectSpeedCrash :: "real \<Rightarrow> real \<Rightarrow> real \<Rightarrow> app_state \<Rightarrow> app_state" where
  "detectSpeedCrash prevSpeed rawSpeed' timeDeltaSec s =
     (if prevSpeed \<ge> 20 \<and> rawSpeed' < 5 \<and> timeDeltaSec < 2
      then s\<lparr>speedBasedCrashRef := True\<rparr> else s)"

text \<open>"Check if both speed and sensor detected crash".\<close>

definition confirmCrash :: "real \<Rightarrow> real \<Rightarrow> app_state \<Rightarrow> app_state" where
  "confirmCrash latitude' longitude' s =
     (if speedBasedCrashRef s \<and> sensorBasedCrashRef s \<and> \<not> crashDetectedRef s
      then s\<lparr>crashDetectedRef := True,
             crashLatRef := Some latitude',
             crashLngRef := Some longitude',
             speedBasedCrashRef := False,
             sensorBasedCrashRef := False\<rparr>
      else s)"

text \<open>A request to the cached resolver, with what its callback closes over:
  latitude, longitude, \<open>rawSpeed\<close> and \<open>time\<close>.\<close>

type_synonym limit_request = "real \<times> real \<times> real \<times> int"

text \<open>The part of the callback that runs only on an active trip.\<close>

definition tripBlock ::
  "position \<Rightarrow> loc option \<Rightarrow> real \<Rightarrow> real \<Rightarrow> int \<Rightarrow> real \<Rightarrow> real \<Rightarrow> app_state
     \<Rightarrow> app_state \<times> limit_request option" where
  "tripBlock p prev latitude' longitude' time' rawSpeed' prevSpeed s =
     (if tripIdRef s \<noteq> None
      then
        (let s1 = s\<lparr>tripLocationBuffer := tripLocationBuffer s @
                      [\<lparr>lat = latitude', lng = longitude', time = time', speed = rawSpeed'\<rparr>]\<rparr>;
             s2 = (case prev of
                     None \<Rightarrow> s1
                   | Some pv \<Rightarrow>
                       if speedCountRef s1 \<ge> 2
                       then detectSpeedCrash prevSpeed rawSpeed'
                              (real_of_int (time' - time pv) / 1000)
                              (detectHarsh pv p time' latitude' longitude' rawSpeed' prevSpeed s1)
                       else s1);
             s3 = confirmCrash latitude' longitude' s2
         in if time' - lastSpeedCheckTimeRef s3 \<ge> 10000
            then (s3\<lparr>lastSpeedCheckTimeRef := time'\<rparr>,
                  Some (latitude', longitude', rawSpeed', time'))
            else (s3, None))
      else (s, None))"

text \<open>The callback for a fix with numeric coordinates.\<close>

definition processFix ::
  "position \<Rightarrow> real \<Rightarrow> real \<Rightarrow> int \<Rightarrow> app_state \<Rightarrow> app_state \<times> limit_request option" where
  "processFix p latitude' longitude' time' s =
     (let s0 = s\<lparr>error := None\<rparr>;
          prev = lastLocationRef s0;
          rawSpeed' = rawSpeed prev latitude' longitude' time' (accuracyOf p) (coordsSpeedKmh p);
          s1 = updateSpeed rawSpeed' s0;
          prevSpeed = (case tripLocationBuffer s1 of [] \<Rightarrow> 0 | _ # _ \<Rightarrow> speed (last (tripLocationBuffer s1)));
          s2 = updateLastLocation prev latitude' longitude' time' s1;
          s3 = autoStart rawSpeed' time' s2
      in tripBlock p prev latitude' longitude' time' rawSpeed' prevSpeed s3)"

text \<open>The \<open>watchPosition\<close> success callback; \<open>dateNow\<close> is \<open>Date.now()\<close>.\<close>

definition onLocation :: "position \<Rightarrow> int \<Rightarrow> app_state \<Rightarrow> app_state \<times> limit_request option" where
  "onLocation p dateNow s =
     (case latitude (coords p) of
        None \<Rightarrow> (s, None)
      | Some latitude' \<Rightarrow>
          (case longitude (coords p) of
             None \<Rightarrow> (s, None)
           | Some longitude' \<Rightarrow> processFix p latitude' longitude' (sampleTime p dateNow) s))"

subsection \<open>The speed limit callback\<close>

text \<open>The \<open>then\<close> callback of \<open>getSpeedLimitCached\<close>; \<open>rawSpeed'\<close> and \<open>time'\<close> are the
  values of the location callback that issued the request. With a limit that is not a
  number, \<open>speedLimit + tolerance\<close> is a string and the comparison with it is false.\<close>

definition onSpeedLimit :: "SpeedLimitInfo \<Rightarrow> real \<Rightarrow> int \<Rightarrow> app_state \<Rightarrow> app_state" where
  "onSpeedLimit limitData rawSpeed' time' s =
     (let s1 = s\<lparr>currentSpeedLimitRef := Some (speedLimit limitData)\<rparr>;
          tolerance = 5;
          isSpeeding = (case speedLimit limitData of
                          Kmh l \<Rightarrow> rawSpeed' > real (l + tolerance)
                        | Inherited \<Rightarrow> False);
          s2 = (if isSpeeding \<and> \<not> wasSpeedingRef s1
                then s1\<lparr>wasSpeedingRef := True,
                        speedingStartTimeRef := Some time',
                        speedingViolationsRef := speedingViolationsRef s1 + 1\<rparr>
                else if \<not> isSpeeding \<and> wasSpeedingRef s1
                then
                  (let s1' = s1\<lparr>wasSpeedingRef := False\<rparr>
                   in case truthyTime (speedingStartTimeRef s1') of
                        None \<Rightarrow> s1'
                      | Some t0 \<Rightarrow>
                          s1'\<lparr>speedingDurationRef :=
                                 speedingDurationRef s1' + real_of_int (time' - t0) / 1000,
                               speedingStartTimeRef := None\<rparr>)
                else s1)
      in if isSpeeding
         then
           (case speedLimit limitData of
              Kmh l \<Rightarrow>
                (let overLimit = rawSpeed' - real l
                 in if overLimit > maxSpeedOverLimitRef s2
                    then s2\<lparr>maxSpeedOverLimitRef := overLimit\<rparr> else s2)
            | Inherited \<Rightarrow> s2)
         else s2)"

subsection \<open>The accelerometer callback\<close>

definition onAccelerometer :: "real \<Rightarrow> real \<Rightarrow> real \<Rightarrow> app_state \<Rightarrow> app_state" where
  "onAccelerometer x y z s =
     (let magnitude = sqrt (x * x + y * y + z * z);
          s1 = s\<lparr>accelerometerMagnitudeRef := magnitude\<rparr>
      in if magnitude > 39 \<and> tripIdRef s1 \<noteq> None
         then s1\<lparr>sensorBasedCrashRef := True\<rparr> else s1)"

text \<open>The 200 ms timer set by the accelerometer callback fires.\<close>

definition crashTimeoutFired :: "app_state \<Rightarrow> app_state" where
  "crashTimeoutFired s = s\<lparr>sensorBasedCrashRef := False\<rparr>"

subsection \<open>Events of a running trip\<close>

text \<open>What can happen between the start of a trip and its end, in any order.\<close>

datatype trip_event =
    Location position int
  | Accelerometer real real real
  | CrashTimeout
  | SpeedLimitResult SpeedLimitInfo real int

fun step :: "trip_event \<Rightarrow> app_state \<Rightarrow> app_state" where
  "step (Location p dateNow) s = fst (onLocation p dateNow s)"
| "step (Accelerometer x y z) s = onAccelerometer x y z s"
| "step CrashTimeout s = crashTimeoutFired s"
| "step (SpeedLimitResult limitData rawSpeed' time') s = onSpeedLimit limitData rawSpeed' time' s"

fun run :: "trip_event list \<Rightarrow> app_state \<Rightarrow> app_state" where
  "run [] s = s"
| "run (e # es) s = run es (step e s)"

section \<open>Auxiliary definitions for the proofs\<close>

subsection \<open>Resolver\<close>

text \<open>What every reachable cache satisfies.\<close>

definition cache_ok :: "cache \<Rightarrow> bool" where
  "cache_ok m = (length m \<le> 100 \<and> distinct (map fst m))"

text \<open>A history of calls that fills the cache: call \<open>i\<close> asks for longitude \<open>i\<close> on the
  equator while the external source is down.\<close>

definition fill_call :: "nat \<Rightarrow> cached_call" where
  "fill_call i = \<lparr>call_lat = 0, call_lng = real i, call_now = 0, call_outcome = Rejected,
                  call_stored = 0\<rparr>"

definition fill_entry :: "nat \<Rightarrow> cache_key \<times> cache_entry" where
  "fill_entry i = ((0, 1000 * int i), \<lparr>data = defaultInfo DefaultError, timestamp = 0\<rparr>)"

subsection \<open>Properties and examples of the trip model\<close>

text \<open>Concrete fixes and states used to exercise the theorems: a previous fix at the origin, at time 0.\<close>

definition example_prev :: loc where
  "example_prev = \<lparr>lat = 0, lng = 0, time = 0\<rparr>"

text \<open>A trip that has just been started there.\<close>

definition example_trip :: app_state where
  "example_trip =
     initial_state\<lparr>status := driving, tripIdRef := Some 1,
                   lastLocationRef := Some example_prev\<rparr>"

text \<open>A fix 0.001 degrees east on the equator, with accuracy 10 m, an optional device speed and a time stamp in seconds.\<close>

definition example_fix :: "real option \<Rightarrow> int \<Rightarrow> position" where
  "example_fix v ts =
     \<lparr>coords = \<lparr>latitude = Some 0, longitude = Some 0.001, accuracy = Some 10, speedMs = v\<rparr>,
      pos_timestamp = Some ts\<rparr>"

text \<open>The same trip after two samples, the last at 50 km/h.\<close>

definition example_moving :: app_state where
  "example_moving =
     example_trip\<lparr>speedSumRef := 90, speedCountRef := 2,
                   tripLocationBuffer := [\<lparr>lat = 0, lng = 0, time = 0, speed = 50\<rparr>]\<rparr>"

text \<open>The episode start time is set exactly when the speeding flag is.\<close>

definition speeding_consistent :: "app_state \<Rightarrow> bool" where
  "speeding_consistent s = (speedingStartTimeRef s \<noteq> None \<longleftrightarrow> wasSpeedingRef s)"

text \<open>An idle component that has received a fix.\<close>

definition example_located :: app_state where
  "example_located = initial_state\<lparr>lastLocationRef := Some example_prev\<rparr>"

text \<open>A started trip whose first limit check found 100 km/h on a 60 km/h road at time 10000.\<close>

definition example_speeding :: app_state where
  "example_speeding =
     onSpeedLimit (defaultInfo Default) 100 10000 (handleStartTrip False (Created 1) example_located)"

text \<open>How often the crash flag goes from false to true along a sequence of events.\<close>

fun crash_transitions :: "trip_event list \<Rightarrow> app_state \<Rightarrow> nat" where
  "crash_transitions [] s = 0"
| "crash_transitions (e # es) s =
     (if \<not> crashDetectedRef s \<and> crashDetectedRef (step e s) then 1 else 0)
       + crash_transitions es (step e s)"

text \<open>A fix at the origin that reports a standstill one second in.\<close>

definition example_stop :: position where
  "example_stop =
     \<lparr>coords = \<lparr>latitude = Some 0, longitude = Some 0, accuracy = Some 10, speedMs = Some 0\<rparr>,
      pos_timestamp = Some 1\<rparr>"

text \<open>Same-kind events are at least 3000 ms after every earlier one.\<close>

fun spaced :: "harsh_event list \<Rightarrow> bool" where
  "spaced [] = True"
| "spaced (e # es) =
     ((\<forall>e' \<in> set es. ev_type e' = ev_type e \<longrightarrow> 3000 \<le> ev_timestamp e' - ev_timestamp e)
      \<and> spaced es)"

text \<open>The cooldown reference of a kind.\<close>

definition lastOfKind :: "harsh_kind \<Rightarrow> app_state \<Rightarrow> int" where
  "lastOfKind k s =
     (if k = Braking then lastHarshBrakeTimeRef s else lastHarshAccelTimeRef s)"

text \<open>The invariant behind the cooldown: the list is spaced and no event is later than the cooldown reference of its kind.\<close>

definition cooldown_inv :: "app_state \<Rightarrow> bool" where
  "cooldown_inv s =
     (spaced (harshEventsRef s)
      \<and> (\<forall>e \<in> set (harshEventsRef s). ev_timestamp e \<le> lastOfKind (ev_type e) s))"

text \<open>A fix on the equator at a given longitude with a device speed in m/s.\<close>

definition example_at :: "real \<Rightarrow> real \<Rightarrow> int \<Rightarrow> position" where
  "example_at lo v ts =
     \<lparr>coords = \<lparr>latitude = Some 0, longitude = Some lo, accuracy = Some 10, speedMs = Some v\<rparr>,
      pos_timestamp = Some ts\<rparr>"

text \<open>A drive along the equator that brakes to a standstill three times, at 5 s, 7 s and 9 s, with the accelerometer reading 15.\<close>

definition example_drive :: "trip_event list" where
  "example_drive =
     [Accelerometer 0 0 15,
      Location (example_at 0.001 10 4) 0,
      Location (example_at 0.002 0 5) 0,
      Location (example_at 0.003 10 6) 0,
      Location (example_at 0.004 0 7) 0,
      Location (example_at 0.005 10 8) 0,
      Location (example_at 0.006 0 9) 0]"

text \<open>A fix at the origin, moving at 10 m/s, with a time stamp in seconds.\<close>

definition example_cruise :: "int \<Rightarrow> trip_event" where
  "example_cruise ts = Location (example_at 0 10 ts) 0"

text \<open>An idle component after its first fix, when Start has been pressed and
  \<open>createTrip\<close> has not answered yet.\<close>

definition example_tapped :: app_state where
  "example_tapped = fst (handleStartTrip_begin False (run [example_cruise 1] initial_state))"

text \<open>Then two more fixes arrive, the second of which starts a trip automatically; the
  request of the button succeeds with trip 1; two fixes are recorded on that trip.\<close>

definition example_raced :: app_state where
  "example_raced =
     run [example_cruise 4, example_cruise 5]
       (handleStartTrip_resume (Created 1)
          (run [example_cruise 2, example_cruise 3] example_tapped))"

text \<open>The accepted location one second before the fix at 7 s of the drive.\<close>

definition example_recent :: loc where
  "example_recent = \<lparr>lat = 0, lng = 0.003, time = 6000\<rparr>"

text \<open>A trip whose last counted braking was at time 5000.\<close>

definition example_cooling :: app_state where
  "example_cooling =
     example_moving\<lparr>accelerometerMagnitudeRef := 15, lastHarshBrakeTimeRef := 5000\<rparr>"

section \<open>Resolver: the decision rule\<close>

lemma decide_far:
  "absDiff v l > 20 \<Longrightarrow> legalLimitFor rt = Kmh l \<Longrightarrow>
   decide (Some v) rt =
     \<lparr>speedLimit = Kmh l, source = LegalValidated, osmSpeed = Some v,
      roadType = rt, legalLimit = Kmh l\<rparr>"
  by (simp add: decide_def Let_def differenceWithin20_def)

lemma decide_near:
  "absDiff v l \<le> 20 \<Longrightarrow> legalLimitFor rt = Kmh l \<Longrightarrow>
   decide (Some v) rt =
     \<lparr>speedLimit = Kmh v, source = Osm, osmSpeed = Some v,
      roadType = rt, legalLimit = Kmh l\<rparr>"
  by (simp add: decide_def Let_def differenceWithin20_def)

lemma decide_inherited:
  "legalLimitFor rt = Inherited \<Longrightarrow>
   decide (Some v) rt =
     \<lparr>speedLimit = Inherited, source = LegalValidated, osmSpeed = Some v,
      roadType = rt, legalLimit = Inherited\<rparr>"
  by (simp add: decide_def Let_def differenceWithin20_def)

lemma getSpeedLimit_road:
  "tags road = Some tg \<Longrightarrow>
   getSpeedLimit (Resolved (Some (road # rest))) =
     Inr (decide (parseOsmSpeed (maxspeed tg)) (highway tg))"
  by (simp add: getSpeedLimit_def getSpeedLimit_try_def)

section \<open>Resolver: the cache as a map\<close>

lemma map_set_new: "k \<notin> fst ` set m \<Longrightarrow> map_set k v m = m @ [(k, v)]"
  by (induction m) auto

lemma map_set_keys_present: "k \<in> fst ` set m \<Longrightarrow> map fst (map_set k v m) = map fst m"
  by (induction m) auto

lemma map_of_map_set: "map_of (map_set k v m) = (map_of m)(k \<mapsto> v)"
  by (induction m) (auto simp: fun_eq_iff)

lemma length_map_set:
  "length (map_set k v m) = (if k \<in> fst ` set m then length m else Suc (length m))"
  by (induction m) auto

lemma distinct_map_set: "distinct (map fst m) \<Longrightarrow> distinct (map fst (map_set k v m))"
  by (cases "k \<in> fst ` set m") (simp_all add: map_set_keys_present map_set_new)

lemma map_delete_hd:
  "distinct (map fst (p # ps)) \<Longrightarrow> map_delete (fst p) (p # ps) = ps"
  by (auto simp: map_delete_def filter_id_conv rev_image_eqI)

lemma cacheStore_present:
  "k \<in> fst ` set m \<Longrightarrow> length m \<le> 100 \<Longrightarrow>
   cacheStore k d now m = map_set k \<lparr>data = d, timestamp = now\<rparr> m"
  by (simp add: cacheStore_def Let_def length_map_set)

lemma cacheStore_room:
  "length m < 100 \<Longrightarrow> cacheStore k d now m = map_set k \<lparr>data = d, timestamp = now\<rparr> m"
  by (simp add: cacheStore_def Let_def length_map_set)

lemma cacheStore_evict:
  assumes "distinct (map fst m)" "k \<notin> fst ` set m" "length m = 100"
  shows "cacheStore k d now m = tl m @ [(k, \<lparr>data = d, timestamp = now\<rparr>)]"
proof -
  from assms(3) obtain p ps where m: "m = p # ps" by (cases m) auto
  have d: "distinct (map fst (p # (ps @ [(k, \<lparr>data = d, timestamp = now\<rparr>)])))"
    using assms(1,2) unfolding m by auto
  show ?thesis
    using assms(2,3) map_delete_hd [OF d]
    by (simp add: cacheStore_def Let_def map_set_new m del: map_set.simps)
qed

lemma cacheStore_ok: "cache_ok m \<Longrightarrow> cache_ok (cacheStore k d now m)"
proof -
  assume ok: "cache_ok m"
  consider (present) "k \<in> fst ` set m" | (room) "k \<notin> fst ` set m" "length m < 100"
    | (full) "k \<notin> fst ` set m" "length m = 100"
    using ok unfolding cache_ok_def by linarith
  then show ?thesis
  proof cases
    case present
    then show ?thesis using ok
      by (simp add: cache_ok_def cacheStore_present length_map_set distinct_map_set)
  next
    case room
    then show ?thesis using ok
      by (simp add: cache_ok_def cacheStore_room length_map_set distinct_map_set)
  next
    case full
    then show ?thesis using ok
      by (cases m) (auto simp add: cache_ok_def cacheStore_evict)
  qed
qed

lemma cacheStore_lookup:
  assumes "cache_ok m"
  shows "map_get (cacheStore k d now m) k = Some \<lparr>data = d, timestamp = now\<rparr>"
proof -
  consider (present) "k \<in> fst ` set m" | (room) "k \<notin> fst ` set m" "length m < 100"
    | (full) "k \<notin> fst ` set m" "length m = 100"
    using assms unfolding cache_ok_def by linarith
  then show ?thesis
  proof cases
    case present
    then show ?thesis using assms
      by (simp add: cache_ok_def cacheStore_present map_get_def map_of_map_set)
  next
    case room
    then show ?thesis
      by (simp add: cacheStore_room map_get_def map_of_map_set)
  next
    case full
    then show ?thesis using assms
      by (cases m) (auto simp add: cache_ok_def cacheStore_evict map_get_def map_add_def
          map_of_eq_None_iff [THEN iffD2] split: option.splits)
  qed
qed

lemma getSpeedLimit_Inr: "\<exists>info. getSpeedLimit r = Inr info"
  by (simp add: getSpeedLimit_def split: sum.splits)

lemma call_ok:
  "cache_ok (speedLimitCache s) \<Longrightarrow>
   cache_ok (speedLimitCache (snd (getSpeedLimitCached la lo now r st s)))"
  using getSpeedLimit_Inr [of r]
  by (auto simp: getSpeedLimitCached_def Let_def cacheStore_ok split: option.splits)

lemma foldl_calls_ok:
  "cache_ok (speedLimitCache s) \<Longrightarrow>
   cache_ok (speedLimitCache (foldl (\<lambda>s c. do_call c s) s cs))"
  by (induction cs arbitrary: s) (simp_all add: do_call_def call_ok)

lemma run_calls_ok: "cache_ok (speedLimitCache (run_calls cs))"
  unfolding run_calls_def
  by (rule foldl_calls_ok) (simp add: empty_resolver_def cache_ok_def)

lemma call_hit:
  "map_get (speedLimitCache s) (cacheKey la lo) = Some c \<Longrightarrow>
   now - timestamp c < CACHE_DURATION_MS \<Longrightarrow>
   getSpeedLimitCached la lo now r st s = (Inr (data c), s)"
  by (simp add: getSpeedLimitCached_def)

lemma call_miss:
  assumes "map_get (speedLimitCache s) (cacheKey la lo) = None \<or>
     (\<exists>c. map_get (speedLimitCache s) (cacheKey la lo) = Some c \<and>
          \<not> now - timestamp c < CACHE_DURATION_MS)"
  shows "\<exists>d. getSpeedLimit r = Inr d \<and>
     getSpeedLimitCached la lo now r st s =
       (Inr d, \<lparr>speedLimitCache = cacheStore (cacheKey la lo) d st (speedLimitCache s),
               queries = queries s @ [(la, lo)]\<rparr>)"
  using assms getSpeedLimit_Inr [of r]
  by (auto simp: getSpeedLimitCached_def Let_def)

section \<open>Resolver: claims\<close>

lemmas parse_defs = parseOsmSpeed_def speedMatch_def isDigit_def parseInt_def digitValue_def
  toLowerCase_def toLowerChar_def mphToKmh_def


text \<open>
  The decision rule, relative to what the lookup in the limit table yields. For a numeric
  legal limit: a posted limit more than 20 km/h away gives the legal limit with source
  \<open>LegalValidated\<close>, a posted limit within 20 km/h is returned with source \<open>Osm\<close>. For a
  class named like an inherited property the lookup yields a value that is not a number,
  the comparison fails, and that value is returned as the limit.
\<close>

lemma posted_limit_rule:
  assumes "tags road = Some tg" and "parseOsmSpeed (maxspeed tg) = Some v"
  shows "(legalLimitFor (highway tg) = Kmh l \<and> absDiff v l > 20 \<longrightarrow>
            getSpeedLimit (Resolved (Some (road # rest))) =
              Inr \<lparr>speedLimit = Kmh l, source = LegalValidated,
                   osmSpeed = Some v, roadType = highway tg, legalLimit = Kmh l\<rparr>
            \<and> l \<noteq> v)
       \<and> (legalLimitFor (highway tg) = Kmh l \<and> absDiff v l \<le> 20 \<longrightarrow>
            getSpeedLimit (Resolved (Some (road # rest))) =
              Inr \<lparr>speedLimit = Kmh v, source = Osm, osmSpeed = Some v, roadType = highway tg,
                   legalLimit = Kmh l\<rparr>)
       \<and> (legalLimitFor (highway tg) = Inherited \<longrightarrow>
            getSpeedLimit (Resolved (Some (road # rest))) =
              Inr \<lparr>speedLimit = Inherited, source = LegalValidated, osmSpeed = Some v,
                   roadType = highway tg, legalLimit = Inherited\<rparr>)"
proof -
  have g: "getSpeedLimit (Resolved (Some (road # rest))) = Inr (decide (Some v) (highway tg))"
    using assms by (simp add: getSpeedLimit_road)
  have far: "absDiff v l > 20 \<Longrightarrow> l \<noteq> v"
    by (auto simp: absDiff_def)
  show ?thesis
    unfolding g using far by (simp add: decide_far decide_near decide_inherited)
qed

text \<open>
  A residential road (legal limit 50) posted at 100 is distrusted; posted at 30 mph, that is
  48 km/h, it is trusted.
\<close>

lemma posted_limit_rule_examples:
  "getSpeedLimit (Resolved (Some [\<lparr>tags = Some \<lparr>highway = Some ''residential'', maxspeed = Some ''100''\<rparr>\<rparr>]))
     = Inr \<lparr>speedLimit = Kmh 50, source = LegalValidated, osmSpeed = Some 100,
            roadType = Some ''residential'', legalLimit = Kmh 50\<rparr>
   \<and> getSpeedLimit (Resolved (Some [\<lparr>tags = Some \<lparr>highway = Some ''residential'', maxspeed = Some ''30 mph''\<rparr>\<rparr>]))
     = Inr \<lparr>speedLimit = Kmh 48, source = Osm, osmSpeed = Some 48,
            roadType = Some ''residential'', legalLimit = Kmh 50\<rparr>"
proof -
  have p1: "parseOsmSpeed (Some ''100'') = Some 100" by (simp add: parse_defs)
  have p2: "parseOsmSpeed (Some ''30 mph'') = Some 48" by (simp add: parse_defs)
  have l: "legalLimitFor (Some ''residential'') = Kmh 50"
    by (simp add: legalLimitFor_def LEBANON_LEGAL_LIMITS_def)
  have a1: "absDiff 100 50 > 20" and a2: "absDiff 48 50 \<le> 20" by (simp_all add: absDiff_def)
  have "getSpeedLimit (Resolved (Some [\<lparr>tags = Some \<lparr>highway = Some ''residential'', maxspeed = Some ''100''\<rparr>\<rparr>]))
     = Inr \<lparr>speedLimit = Kmh 50, source = LegalValidated, osmSpeed = Some 100,
            roadType = Some ''residential'', legalLimit = Kmh 50\<rparr>"
    using posted_limit_rule [of "\<lparr>tags = Some \<lparr>highway = Some ''residential'', maxspeed = Some ''100''\<rparr>\<rparr>"
        "\<lparr>highway = Some ''residential'', maxspeed = Some ''100''\<rparr>" 100 50 "[]"] a1
    by (simp add: p1 l)
  moreover have "getSpeedLimit (Resolved (Some [\<lparr>tags = Some \<lparr>highway = Some ''residential'', maxspeed = Some ''30 mph''\<rparr>\<rparr>]))
     = Inr \<lparr>speedLimit = Kmh 48, source = Osm, osmSpeed = Some 48,
            roadType = Some ''residential'', legalLimit = Kmh 50\<rparr>"
    using posted_limit_rule [of "\<lparr>tags = Some \<lparr>highway = Some ''residential'', maxspeed = Some ''30 mph''\<rparr>\<rparr>"
        "\<lparr>highway = Some ''residential'', maxspeed = Some ''30 mph''\<rparr>" 48 50 "[]"] a2
    by (simp add: p2 l)
  ultimately show ?thesis by blast
qed

text \<open>
  Claim C4. A posted limit within 20 km/h of the legal limit of the road class is to be
  returned with source \<open>Osm\<close>, one further away replaced by the legal limit. The resolver
  does so for every class whose lookup yields a number, and not for a road whose class
  reads \<open>constructor\<close>: that name is not in the table, so its legal limit is the default
  60, and the posted 50 is within 20 of it; but the lookup finds the inherited property, and
  the resolver answers with source \<open>LegalValidated\<close> and a limit that is not a number.
\<close>

theorem posted_limit_inherited_class:
  "LEBANON_LEGAL_LIMITS ''constructor'' = None
   \<and> parseOsmSpeed (Some ''50'') = Some 50
   \<and> absDiff 50 LEGAL_DEFAULT \<le> 20
   \<and> getSpeedLimit (Resolved (Some [\<lparr>tags = Some \<lparr>highway = Some ''constructor'', maxspeed = Some ''50''\<rparr>\<rparr>]))
     = Inr \<lparr>speedLimit = Inherited, source = LegalValidated, osmSpeed = Some 50,
            roadType = Some ''constructor'', legalLimit = Inherited\<rparr>"
proof -
  have t: "LEBANON_LEGAL_LIMITS ''constructor'' = None"
    by (simp add: LEBANON_LEGAL_LIMITS_def)
  have p: "parseOsmSpeed (Some ''50'') = Some 50" by (simp add: parse_defs)
  have d: "absDiff 50 LEGAL_DEFAULT \<le> 20" by (simp add: absDiff_def LEGAL_DEFAULT_def)
  have i: "legalLimitFor (Some ''constructor'') = Inherited"
    by (simp add: legalLimitFor_def t objectPrototypeKeys_def)
  have "getSpeedLimit (Resolved (Some [\<lparr>tags = Some \<lparr>highway = Some ''constructor'', maxspeed = Some ''50''\<rparr>\<rparr>]))
     = Inr (decide (Some 50) (Some ''constructor''))"
    by (simp add: getSpeedLimit_def getSpeedLimit_try_def p)
  then show ?thesis using t p d by (simp add: decide_inherited [OF i])
qed



text \<open>
  Claim C6. After any history of calls, a call leaves an entry for its grid cell that holds
  what the call returned and, when the call asked the external source, is stamped with that
  call's insertion time. And in any state in which the cell of a first call has an entry, a
  call whose coordinates round to the same cell returns the stored record and leaves the
  state, the query log included, unchanged if it comes less than 120000 ms after the
  entry's time stamp; if it comes 120000 ms or more after, it issues one more external
  query.
\<close>

theorem cache_window:
  assumes key: "cacheKey la2 lo2 = cacheKey la1 lo1"
  shows "(getSpeedLimitCached la1 lo1 now1 r1 st1 (run_calls cs) = (res1, s1) \<longrightarrow>
           (\<exists>c. map_get (speedLimitCache s1) (cacheKey la1 lo1) = Some c
               \<and> res1 = Inr (data c)
               \<and> (queries s1 \<noteq> queries (run_calls cs) \<longrightarrow> timestamp c = st1)))
       \<and> (map_get (speedLimitCache s) (cacheKey la1 lo1) = Some c \<longrightarrow>
           (now2 - timestamp c < 120000 \<longrightarrow>
              getSpeedLimitCached la2 lo2 now2 r2 st2 s = (Inr (data c), s))
           \<and> (now2 - timestamp c \<ge> 120000 \<longrightarrow>
              queries (snd (getSpeedLimitCached la2 lo2 now2 r2 st2 s)) = queries s @ [(la2, lo2)]))"
proof -
  let ?s = "run_calls cs"
  let ?k = "cacheKey la1 lo1"
  have ok: "cache_ok (speedLimitCache ?s)" by (rule run_calls_ok)
  have entry: "\<exists>c. map_get (speedLimitCache s1) ?k = Some c \<and> res1 = Inr (data c)
      \<and> (queries s1 \<noteq> queries ?s \<longrightarrow> timestamp c = st1)"
    if first: "getSpeedLimitCached la1 lo1 now1 r1 st1 ?s = (res1, s1)"
  proof (cases "\<exists>c. map_get (speedLimitCache ?s) ?k = Some c \<and> now1 - timestamp c < CACHE_DURATION_MS")
    case True
    then obtain c where c: "map_get (speedLimitCache ?s) ?k = Some c"
      "now1 - timestamp c < CACHE_DURATION_MS" by blast
    from call_hit [OF c, of r1 st1] first have "res1 = Inr (data c)" "s1 = ?s" by simp_all
    with c show ?thesis by simp
  next
    case False
    then have "map_get (speedLimitCache ?s) ?k = None \<or>
       (\<exists>c. map_get (speedLimitCache ?s) ?k = Some c \<and> \<not> now1 - timestamp c < CACHE_DURATION_MS)"
      by (cases "map_get (speedLimitCache ?s) ?k") auto
    from call_miss [OF this, of r1 st1] first obtain d where
      d: "res1 = Inr d"
         "s1 = \<lparr>speedLimitCache = cacheStore ?k d st1 (speedLimitCache ?s),
                queries = queries ?s @ [(la1, lo1)]\<rparr>"
      by auto
    show ?thesis
      using cacheStore_lookup [OF ok, of ?k d st1] d by simp
  qed
  have hit: "getSpeedLimitCached la2 lo2 now2 r2 st2 s = (Inr (data c), s)"
    if "map_get (speedLimitCache s) ?k = Some c" "now2 - timestamp c < 120000"
    using call_hit [of s la2 lo2 c now2 r2 st2] that key by (simp add: CACHE_DURATION_MS_def)
  have miss: "queries (snd (getSpeedLimitCached la2 lo2 now2 r2 st2 s)) = queries s @ [(la2, lo2)]"
    if "map_get (speedLimitCache s) ?k = Some c" "now2 - timestamp c \<ge> 120000"
  proof -
    have "map_get (speedLimitCache s) (cacheKey la2 lo2) = None \<or>
       (\<exists>c. map_get (speedLimitCache s) (cacheKey la2 lo2) = Some c
            \<and> \<not> now2 - timestamp c < CACHE_DURATION_MS)"
      using that key by (simp add: CACHE_DURATION_MS_def)
    from call_miss [OF this, of r2 st2] show ?thesis by auto
  qed
  show ?thesis using entry hit miss by blast
qed

text \<open>
  Two points of the same cell, the first asked at an empty cache and stored at time 2000:
  a second call at 60000 is served from the cache, one at 122000 asks again.
\<close>

theorem cache_window_witness:
  "cacheKey 33.8941 35.5021 = cacheKey 33.8938 35.5018
   \<and> getSpeedLimitCached 33.8938 35.5018 1000 Rejected 2000 (run_calls [])
      = (Inr (defaultInfo DefaultError),
         \<lparr>speedLimitCache =
            [((33894, 35502), \<lparr>data = defaultInfo DefaultError, timestamp = 2000\<rparr>)],
          queries = [(33.8938, 35.5018)]\<rparr>)
   \<and> getSpeedLimitCached 33.8941 35.5021 60000 (Resolved None) 61000
        \<lparr>speedLimitCache =
           [((33894, 35502), \<lparr>data = defaultInfo DefaultError, timestamp = 2000\<rparr>)],
         queries = [(33.8938, 35.5018)]\<rparr>
      = (Inr (defaultInfo DefaultError),
         \<lparr>speedLimitCache =
            [((33894, 35502), \<lparr>data = defaultInfo DefaultError, timestamp = 2000\<rparr>)],
          queries = [(33.8938, 35.5018)]\<rparr>)
   \<and> queries (snd (getSpeedLimitCached 33.8941 35.5021 122000 (Resolved None) 123000
        \<lparr>speedLimitCache =
           [((33894, 35502), \<lparr>data = defaultInfo DefaultError, timestamp = 2000\<rparr>)],
         queries = [(33.8938, 35.5018)]\<rparr>))
      = [(33.8938, 35.5018), (33.8941, 35.5021)]"
proof -
  let ?c = "\<lparr>data = defaultInfo DefaultError, timestamp = 2000\<rparr>"
  let ?s1 = "\<lparr>speedLimitCache = [((33894, 35502), ?c)], queries = [(33.8938, 35.5018)]\<rparr>"
  have k1: "cacheKey 33.8938 35.5018 = (33894, 35502)"
    by (simp add: cacheKey_def mathRound_def)
  have k2: "cacheKey 33.8941 35.5021 = (33894, 35502)"
    by (simp add: cacheKey_def mathRound_def)
  have k: "cacheKey 33.8941 35.5021 = cacheKey 33.8938 35.5018" unfolding k1 k2 ..
  have r0: "run_calls [] = empty_resolver" by (simp add: run_calls_def)
  have first: "getSpeedLimitCached 33.8938 35.5018 1000 Rejected 2000 (run_calls [])
      = (Inr (defaultInfo DefaultError), ?s1)"
    unfolding r0 getSpeedLimitCached_def k1
    by (simp add: empty_resolver_def map_get_def getSpeedLimit_def
        getSpeedLimit_try_def cacheStore_def)
  have m: "map_get (speedLimitCache ?s1) (cacheKey 33.8938 35.5018) = Some ?c"
    unfolding k1 by (simp add: map_get_def)
  from cache_window [OF k, of 1000 Rejected 2000 "[]" "Inr (defaultInfo DefaultError)" "?s1"
      "?s1" "?c" 60000 "Resolved None" 61000] m
  have a: "getSpeedLimitCached 33.8941 35.5021 60000 (Resolved None) 61000 ?s1
      = (Inr (defaultInfo DefaultError), ?s1)"
    by simp
  from cache_window [OF k, of 1000 Rejected 2000 "[]" "Inr (defaultInfo DefaultError)" "?s1"
      "?s1" "?c" 122000 "Resolved None" 123000] m
  have b: "queries (snd (getSpeedLimitCached 33.8941 35.5021 122000 (Resolved None) 123000 ?s1))
      = queries ?s1 @ [(33.8941, 35.5021)]"
    by simp
  show ?thesis using a b k first by simp
qed

text \<open>
  Claim C7. After any history of calls the cache holds at most 100 entries, and it still
  does after the next insertion. An insertion of a new key into a cache of exactly 100
  entries removes exactly the first entry in insertion order and appends the new one; any
  other insertion removes nothing.
\<close>

theorem cache_bounded:
  "length (speedLimitCache (run_calls cs)) \<le> 100
   \<and> length (cacheStore k d now (speedLimitCache (run_calls cs))) \<le> 100
   \<and> (map_get (speedLimitCache (run_calls cs)) k = None
        \<and> length (speedLimitCache (run_calls cs)) = 100 \<longrightarrow>
        cacheStore k d now (speedLimitCache (run_calls cs)) =
          tl (speedLimitCache (run_calls cs)) @ [(k, \<lparr>data = d, timestamp = now\<rparr>)])
   \<and> (map_get (speedLimitCache (run_calls cs)) k \<noteq> None
        \<or> length (speedLimitCache (run_calls cs)) < 100 \<longrightarrow>
        cacheStore k d now (speedLimitCache (run_calls cs)) =
          map_set k \<lparr>data = d, timestamp = now\<rparr> (speedLimitCache (run_calls cs)))"
proof -
  let ?m = "speedLimitCache (run_calls cs)"
  have ok: "cache_ok ?m" by (rule run_calls_ok)
  then have len: "length ?m \<le> 100" and dist: "distinct (map fst ?m)"
    by (simp_all add: cache_ok_def)
  have len': "length (cacheStore k d now ?m) \<le> 100"
    using cacheStore_ok [OF ok, of k d now] by (simp add: cache_ok_def)
  have none: "map_get ?m k = None \<longleftrightarrow> k \<notin> fst ` set ?m"
    by (simp add: map_get_def map_of_eq_None_iff)
  have evict: "map_get ?m k = None \<and> length ?m = 100 \<longrightarrow>
      cacheStore k d now ?m = tl ?m @ [(k, \<lparr>data = d, timestamp = now\<rparr>)]"
    using cacheStore_evict [OF dist, of k d now] none by blast
  have keep: "map_get ?m k \<noteq> None \<or> length ?m < 100 \<longrightarrow>
      cacheStore k d now ?m = map_set k \<lparr>data = d, timestamp = now\<rparr> ?m"
    using cacheStore_present [of k ?m d now] cacheStore_room [of ?m k d now] len none by auto
  show ?thesis using len len' evict keep by blast
qed

lemma fill_key: "cacheKey 0 (real i) = (0, 1000 * int i)"
proof -
  have "\<lfloor>real i * 1000 + 1 / 2\<rfloor> = 1000 * int i" by linarith
  then show ?thesis by (simp add: cacheKey_def mathRound_def)
qed

lemma fill_keys_fresh: "(0, 1000 * int n) \<notin> fst ` set (map fill_entry [0..<n])"
  by (auto simp: fill_entry_def)

lemma run_fill:
  "n \<le> 100 \<Longrightarrow> speedLimitCache (run_calls (map fill_call [0..<n])) = map fill_entry [0..<n]"
proof (induction n)
  case 0
  then show ?case by (simp add: run_calls_def empty_resolver_def)
next
  case (Suc n)
  let ?s = "run_calls (map fill_call [0..<n])"
  have m: "speedLimitCache ?s = map fill_entry [0..<n]" using Suc by simp
  have miss: "map_get (speedLimitCache ?s) (cacheKey 0 (real n)) = None"
    unfolding m fill_key map_get_def using fill_keys_fresh [of n]
    by (simp add: map_of_eq_None_iff)
  have g: "getSpeedLimit Rejected = Inr (defaultInfo DefaultError)"
    by (simp add: getSpeedLimit_def getSpeedLimit_try_def)
  have room: "length (map fill_entry [0..<n]) < 100" using Suc.prems by simp
  have store: "cacheStore (0, 1000 * int n) (defaultInfo DefaultError) 0 (map fill_entry [0..<n])
      = map fill_entry [0..<n] @ [fill_entry n]"
    unfolding cacheStore_room [OF room] map_set_new [OF fill_keys_fresh]
    by (simp add: fill_entry_def)
  have "speedLimitCache (do_call (fill_call n) ?s) = map fill_entry [0..<n] @ [fill_entry n]"
    using miss
    by (simp add: do_call_def fill_call_def getSpeedLimitCached_def g fill_key m store)
  then show ?case by (simp add: run_calls_def)
qed

text \<open>
  A hundred calls for a hundred cells fill the cache; the next new cell evicts the oldest.
\<close>

theorem cache_bounded_witness:
  "length (speedLimitCache (run_calls (map fill_call [0..<100]))) = 100
   \<and> map_get (speedLimitCache (run_calls (map fill_call [0..<100]))) (0, 100000) = None
   \<and> cacheStore (0, 100000) (defaultInfo Default) 5 (speedLimitCache (run_calls (map fill_call [0..<100])))
       = tl (speedLimitCache (run_calls (map fill_call [0..<100])))
           @ [((0, 100000), \<lparr>data = defaultInfo Default, timestamp = 5\<rparr>)]
   \<and> length (cacheStore (0, 100000) (defaultInfo Default) 5
         (speedLimitCache (run_calls (map fill_call [0..<100])))) \<le> 100"
proof -
  let ?m = "speedLimitCache (run_calls (map fill_call [0..<100]))"
  have m: "?m = map fill_entry [0..<100]" by (rule run_fill) simp
  have len: "length ?m = 100" unfolding m by simp
  have none: "map_get ?m (0, 100000) = None"
    unfolding m map_get_def using fill_keys_fresh [of 100] by (simp add: map_of_eq_None_iff)
  show ?thesis
    using cache_bounded [of "map fill_call [0..<100]" "(0, 100000)" "defaultInfo Default" 5] len none
    by blast
qed

section \<open>Location callback: what each stage leaves alone\<close>

lemma updateSpeed_fields [simp]:
  "tripIdRef (updateSpeed v s) = tripIdRef s"
  "lastLocationRef (updateSpeed v s) = lastLocationRef s"
  "tripLocationBuffer (updateSpeed v s) = tripLocationBuffer s"
  "harshEventsRef (updateSpeed v s) = harshEventsRef s"
  "lastHarshBrakeTimeRef (updateSpeed v s) = lastHarshBrakeTimeRef s"
  "lastHarshAccelTimeRef (updateSpeed v s) = lastHarshAccelTimeRef s"
  "harshBrakeCountRef (updateSpeed v s) = harshBrakeCountRef s"
  "harshAccelCountRef (updateSpeed v s) = harshAccelCountRef s"
  "crashDetectedRef (updateSpeed v s) = crashDetectedRef s"
  "speedBasedCrashRef (updateSpeed v s) = speedBasedCrashRef s"
  "sensorBasedCrashRef (updateSpeed v s) = sensorBasedCrashRef s"
  "autoStartInProgressRef (updateSpeed v s) = autoStartInProgressRef s"
  by (simp_all add: updateSpeed_def Let_def)

lemma updateSpeed_sum:
  "tripIdRef s \<noteq> None \<Longrightarrow> speedSumRef (updateSpeed v s) = speedSumRef s + v"
  "tripIdRef s \<noteq> None \<Longrightarrow> speedCountRef (updateSpeed v s) = speedCountRef s + 1"
  by (simp_all add: updateSpeed_def Let_def)

lemma updateLastLocation_fields [simp]:
  "tripIdRef (updateLastLocation pv la lo t s) = tripIdRef s"
  "tripLocationBuffer (updateLastLocation pv la lo t s) = tripLocationBuffer s"
  "speedSumRef (updateLastLocation pv la lo t s) = speedSumRef s"
  "speedCountRef (updateLastLocation pv la lo t s) = speedCountRef s"
  "harshEventsRef (updateLastLocation pv la lo t s) = harshEventsRef s"
  "lastHarshBrakeTimeRef (updateLastLocation pv la lo t s) = lastHarshBrakeTimeRef s"
  "lastHarshAccelTimeRef (updateLastLocation pv la lo t s) = lastHarshAccelTimeRef s"
  "harshBrakeCountRef (updateLastLocation pv la lo t s) = harshBrakeCountRef s"
  "harshAccelCountRef (updateLastLocation pv la lo t s) = harshAccelCountRef s"
  "crashDetectedRef (updateLastLocation pv la lo t s) = crashDetectedRef s"
  "speedBasedCrashRef (updateLastLocation pv la lo t s) = speedBasedCrashRef s"
  "sensorBasedCrashRef (updateLastLocation pv la lo t s) = sensorBasedCrashRef s"
  "autoStartInProgressRef (updateLastLocation pv la lo t s) = autoStartInProgressRef s"
  by (simp_all add: updateLastLocation_def Let_def)

lemma handleStartTrip_begin_fields [simp]:
  "tripIdRef (fst (handleStartTrip_begin b s)) = tripIdRef s"
  "tripLocationBuffer (fst (handleStartTrip_begin b s)) = tripLocationBuffer s"
  "speedSumRef (fst (handleStartTrip_begin b s)) = speedSumRef s"
  "speedCountRef (fst (handleStartTrip_begin b s)) = speedCountRef s"
  "harshEventsRef (fst (handleStartTrip_begin b s)) = harshEventsRef s"
  "lastHarshBrakeTimeRef (fst (handleStartTrip_begin b s)) = lastHarshBrakeTimeRef s"
  "lastHarshAccelTimeRef (fst (handleStartTrip_begin b s)) = lastHarshAccelTimeRef s"
  "harshBrakeCountRef (fst (handleStartTrip_begin b s)) = harshBrakeCountRef s"
  "harshAccelCountRef (fst (handleStartTrip_begin b s)) = harshAccelCountRef s"
  "crashDetectedRef (fst (handleStartTrip_begin b s)) = crashDetectedRef s"
  "speedBasedCrashRef (fst (handleStartTrip_begin b s)) = speedBasedCrashRef s"
  "sensorBasedCrashRef (fst (handleStartTrip_begin b s)) = sensorBasedCrashRef s"
  by (simp_all add: handleStartTrip_begin_def Let_def split: option.splits)

lemma autoStart_active [simp]: "tripIdRef s \<noteq> None \<Longrightarrow> autoStart v t s = s"
  by (auto simp: autoStart_def)

lemma autoStart_fields [simp]:
  "tripIdRef (autoStart v t s) = tripIdRef s"
  "tripLocationBuffer (autoStart v t s) = tripLocationBuffer s"
  "speedSumRef (autoStart v t s) = speedSumRef s"
  "speedCountRef (autoStart v t s) = speedCountRef s"
  "harshEventsRef (autoStart v t s) = harshEventsRef s"
  "lastHarshBrakeTimeRef (autoStart v t s) = lastHarshBrakeTimeRef s"
  "lastHarshAccelTimeRef (autoStart v t s) = lastHarshAccelTimeRef s"
  "harshBrakeCountRef (autoStart v t s) = harshBrakeCountRef s"
  "harshAccelCountRef (autoStart v t s) = harshAccelCountRef s"
  "crashDetectedRef (autoStart v t s) = crashDetectedRef s"
  "speedBasedCrashRef (autoStart v t s) = speedBasedCrashRef s"
  "sensorBasedCrashRef (autoStart v t s) = sensorBasedCrashRef s"
  by (simp_all add: autoStart_def Let_def)

lemma applyCooldown_fields [simp]:
  "tripIdRef (applyCooldown cb ca t la lo v s) = tripIdRef s"
  "tripLocationBuffer (applyCooldown cb ca t la lo v s) = tripLocationBuffer s"
  "speedSumRef (applyCooldown cb ca t la lo v s) = speedSumRef s"
  "speedCountRef (applyCooldown cb ca t la lo v s) = speedCountRef s"
  "crashDetectedRef (applyCooldown cb ca t la lo v s) = crashDetectedRef s"
  "speedBasedCrashRef (applyCooldown cb ca t la lo v s) = speedBasedCrashRef s"
  "sensorBasedCrashRef (applyCooldown cb ca t la lo v s) = sensorBasedCrashRef s"
  "lastSpeedCheckTimeRef (applyCooldown cb ca t la lo v s) = lastSpeedCheckTimeRef s"
  by (simp_all add: applyCooldown_def recordBrake_def recordAccel_def Let_def)

lemma detectHarsh_fields [simp]:
  "tripIdRef (detectHarsh pv p t la lo v ps s) = tripIdRef s"
  "tripLocationBuffer (detectHarsh pv p t la lo v ps s) = tripLocationBuffer s"
  "speedSumRef (detectHarsh pv p t la lo v ps s) = speedSumRef s"
  "speedCountRef (detectHarsh pv p t la lo v ps s) = speedCountRef s"
  "crashDetectedRef (detectHarsh pv p t la lo v ps s) = crashDetectedRef s"
  "speedBasedCrashRef (detectHarsh pv p t la lo v ps s) = speedBasedCrashRef s"
  "sensorBasedCrashRef (detectHarsh pv p t la lo v ps s) = sensorBasedCrashRef s"
  "lastSpeedCheckTimeRef (detectHarsh pv p t la lo v ps s) = lastSpeedCheckTimeRef s"
  by (simp_all add: detectHarsh_def Let_def)

lemma detectSpeedCrash_fields [simp]:
  "tripIdRef (detectSpeedCrash ps v d s) = tripIdRef s"
  "tripLocationBuffer (detectSpeedCrash ps v d s) = tripLocationBuffer s"
  "speedSumRef (detectSpeedCrash ps v d s) = speedSumRef s"
  "speedCountRef (detectSpeedCrash ps v d s) = speedCountRef s"
  "harshEventsRef (detectSpeedCrash ps v d s) = harshEventsRef s"
  "lastHarshBrakeTimeRef (detectSpeedCrash ps v d s) = lastHarshBrakeTimeRef s"
  "lastHarshAccelTimeRef (detectSpeedCrash ps v d s) = lastHarshAccelTimeRef s"
  "harshBrakeCountRef (detectSpeedCrash ps v d s) = harshBrakeCountRef s"
  "harshAccelCountRef (detectSpeedCrash ps v d s) = harshAccelCountRef s"
  "crashDetectedRef (detectSpeedCrash ps v d s) = crashDetectedRef s"
  "sensorBasedCrashRef (detectSpeedCrash ps v d s) = sensorBasedCrashRef s"
  "lastSpeedCheckTimeRef (detectSpeedCrash ps v d s) = lastSpeedCheckTimeRef s"
  by (simp_all add: detectSpeedCrash_def)

lemma confirmCrash_fields [simp]:
  "tripIdRef (confirmCrash la lo s) = tripIdRef s"
  "tripLocationBuffer (confirmCrash la lo s) = tripLocationBuffer s"
  "speedSumRef (confirmCrash la lo s) = speedSumRef s"
  "speedCountRef (confirmCrash la lo s) = speedCountRef s"
  "harshEventsRef (confirmCrash la lo s) = harshEventsRef s"
  "lastHarshBrakeTimeRef (confirmCrash la lo s) = lastHarshBrakeTimeRef s"
  "lastHarshAccelTimeRef (confirmCrash la lo s) = lastHarshAccelTimeRef s"
  "harshBrakeCountRef (confirmCrash la lo s) = harshBrakeCountRef s"
  "harshAccelCountRef (confirmCrash la lo s) = harshAccelCountRef s"
  "lastSpeedCheckTimeRef (confirmCrash la lo s) = lastSpeedCheckTimeRef s"
  by (simp_all add: confirmCrash_def)

text \<open>What the trip block does to the buffer and to the running sum and count.\<close>

lemma tripBlock_buffer:
  "tripIdRef s \<noteq> None \<Longrightarrow>
   tripLocationBuffer (fst (tripBlock p prev la lo t v ps s)) =
     tripLocationBuffer s @ [\<lparr>lat = la, lng = lo, time = t, speed = v\<rparr>]"
  by (simp add: tripBlock_def Let_def split: option.splits)

lemma tripBlock_sum [simp]:
  "speedSumRef (fst (tripBlock p prev la lo t v ps s)) = speedSumRef s"
  "speedCountRef (fst (tripBlock p prev la lo t v ps s)) = speedCountRef s"
  "tripIdRef (fst (tripBlock p prev la lo t v ps s)) = tripIdRef s"
  by (simp_all add: tripBlock_def Let_def split: option.splits)

lemma processFix_buffer:
  "tripIdRef s \<noteq> None \<Longrightarrow>
   tripLocationBuffer (fst (processFix p la lo t s)) =
     tripLocationBuffer s @
       [\<lparr>lat = la, lng = lo, time = t,
         speed = rawSpeed (lastLocationRef s) la lo t (accuracyOf p) (coordsSpeedKmh p)\<rparr>]"
  by (simp add: processFix_def Let_def tripBlock_buffer)

lemma processFix_sum:
  "tripIdRef s \<noteq> None \<Longrightarrow>
   speedSumRef (fst (processFix p la lo t s)) =
     speedSumRef s + rawSpeed (lastLocationRef s) la lo t (accuracyOf p) (coordsSpeedKmh p)"
  "tripIdRef s \<noteq> None \<Longrightarrow>
   speedCountRef (fst (processFix p la lo t s)) = speedCountRef s + 1"
  by (simp_all add: processFix_def Let_def updateSpeed_sum)

lemma processFix_tripId [simp]: "tripIdRef (fst (processFix p la lo t s)) = tripIdRef s"
  by (simp add: processFix_def Let_def)

section \<open>Haversine distance along the equator\<close>

lemma atan2_sin_cos:
  assumes "0 \<le> x" "x < pi / 2"
  shows "atan2 (sin x) (cos x) = x"
proof -
  have c: "cos x > 0" using assms by (simp add: cos_gt_zero_pi)
  have "arctan (sin x / cos x) = x"
    using arctan_tan [of x] assms by (simp add: tan_def)
  then show ?thesis using c by (simp add: atan2_def)
qed

lemma distanceKm_equator:
  assumes "0 \<le> d" "d < 180"
  shows "distanceKm 0 l 0 (l + d) = 6371 * (d * pi / 180)"
proof -
  define x where "x = d * pi / 360"
  have x0: "0 \<le> x" using assms by (simp add: x_def)
  have x1: "x < pi / 2" using assms pi_gt_zero by (simp add: x_def)
  have s: "sin x \<ge> 0" using x0 x1 pi_gt_zero by (intro sin_ge_zero) linarith+
  have c: "cos x > 0" using x0 x1 by (simp add: cos_gt_zero_pi)
  have sq: "sqrt ((sin x)\<^sup>2) = sin x" using s by simp
  have "1 - (sin x)\<^sup>2 = (cos x)\<^sup>2" using sin_cos_squared_add [of x] by linarith
  then have cq: "sqrt (1 - (sin x)\<^sup>2) = cos x" using c by simp
  have "distanceKm 0 l 0 (l + d) = 6371 * (2 * atan2 (sqrt ((sin x)\<^sup>2)) (sqrt (1 - (sin x)\<^sup>2)))"
    by (simp add: distanceKm_def Let_def x_def)
  also have "\<dots> = 6371 * (2 * x)" unfolding sq cq atan2_sin_cos [OF x0 x1] ..
  finally show ?thesis by (simp add: x_def)
qed

lemma distanceKm_same: "distanceKm a b a b = 0"
  by (simp add: distanceKm_def atan2_def)

lemma distanceKm_example: "distanceKm 0 0 0 0.001 = 6371 * (0.001 * pi / 180)"
  using distanceKm_equator [of "0.001" 0] by simp

lemma distanceKm_example_bounds:
  "0.07 < distanceKm 0 0 0 0.001" "distanceKm 0 0 0 0.001 < 0.15"
  using pi_ge_two pi_less_4 unfolding distanceKm_example by simp_all

section \<open>Raw speed\<close>

lemma onLocation_numeric:
  "latitude (coords p) = Some la \<Longrightarrow> longitude (coords p) = Some lo \<Longrightarrow>
   onLocation p dn s = processFix p la lo (sampleTime p dn) s"
  by (simp add: onLocation_def)

lemma rawSpeed_displacement:
  assumes "t - time pv \<ge> 1500" "distanceKm (lat pv) (lng pv) la lo \<ge> 0.015"
    "acc \<le> 35 \<or> acc > 500"
  shows "rawSpeed (Some pv) la lo t acc None =
     distanceKm (lat pv) (lng pv) la lo / (real_of_int (t - time pv) / 1000 / 3600)"
  using assms by (simp add: rawSpeed_def Let_def)

lemma rawSpeed_rejected:
  assumes "\<not> (\<exists>pv. prev = Some pv \<and> t - time pv \<ge> 1500
       \<and> distanceKm (lat pv) (lng pv) la lo \<ge> 0.015 \<and> (acc \<le> 35 \<or> acc > 500))"
  shows "rawSpeed prev la lo t acc None = 0"
  using assms by (auto simp: rawSpeed_def Let_def split: option.splits)

text \<open>
  Claim C3, amended. When the fix carries no non-negative device speed, and against the last
  accepted location (\<open>lastLocationRef\<close>) at least 1500 ms have elapsed, the displacement
  is at least 0.015 km and the accuracy is at most 35 m, the raw speed is the haversine
  distance from that location divided by the elapsed time in hours; on an active trip this
  is the speed stored with the buffered point.
\<close>

theorem raw_speed_from_displacement:
  assumes "coordsSpeedKmh p = None"
    and "latitude (coords p) = Some la" and "longitude (coords p) = Some lo"
    and "lastLocationRef s = Some pv"
    and "sampleTime p dn - time pv \<ge> 1500"
    and "distanceKm (lat pv) (lng pv) la lo \<ge> 0.015"
    and "accuracyOf p \<le> 35"
  shows "rawSpeed (lastLocationRef s) la lo (sampleTime p dn) (accuracyOf p) (coordsSpeedKmh p)
           = distanceKm (lat pv) (lng pv) la lo
               / (real_of_int (sampleTime p dn - time pv) / 1000 / 3600)
       \<and> (tripIdRef s \<noteq> None \<longrightarrow>
            speed (last (tripLocationBuffer (fst (onLocation p dn s))))
              = distanceKm (lat pv) (lng pv) la lo
                  / (real_of_int (sampleTime p dn - time pv) / 1000 / 3600))"
proof -
  have r: "rawSpeed (lastLocationRef s) la lo (sampleTime p dn) (accuracyOf p) (coordsSpeedKmh p)
           = distanceKm (lat pv) (lng pv) la lo
               / (real_of_int (sampleTime p dn - time pv) / 1000 / 3600)"
    unfolding assms(1,4) using assms(5,6,7) by (intro rawSpeed_displacement) auto
  show ?thesis
    using r by (simp add: onLocation_numeric [OF assms(2,3)] processFix_buffer)
qed

lemma example_time: "sampleTime (example_fix v 2) dn = 2000"
  by (simp add: sampleTime_def example_fix_def)

text \<open>
  A fix without device speed, 0.001 degrees east of the previous one and 2 s later.
\<close>

theorem raw_speed_from_displacement_witness:
  "coordsSpeedKmh (example_fix None 2) = None
   \<and> lastLocationRef example_trip = Some example_prev
   \<and> sampleTime (example_fix None 2) 0 - time example_prev \<ge> 1500
   \<and> distanceKm (lat example_prev) (lng example_prev) 0 0.001 \<ge> 0.015
   \<and> accuracyOf (example_fix None 2) \<le> 35
   \<and> tripIdRef example_trip \<noteq> None
   \<and> speed (last (tripLocationBuffer (fst (onLocation (example_fix None 2) 0 example_trip))))
       = distanceKm 0 0 0 0.001 / (2000 / 1000 / 3600)"
proof -
  have h1: "coordsSpeedKmh (example_fix None 2) = None"
    by (simp add: coordsSpeedKmh_def example_fix_def)
  have h2: "latitude (coords (example_fix None 2)) = Some 0"
    and h3: "longitude (coords (example_fix None 2)) = Some 0.001"
    by (simp_all add: example_fix_def)
  have h4: "lastLocationRef example_trip = Some example_prev"
    by (simp add: example_trip_def)
  have h5: "sampleTime (example_fix None 2) 0 - time example_prev \<ge> 1500"
    by (simp add: example_time example_prev_def)
  have h6: "distanceKm (lat example_prev) (lng example_prev) 0 0.001 \<ge> 0.015"
    using distanceKm_example_bounds(1) by (simp add: example_prev_def)
  have h7: "accuracyOf (example_fix None 2) \<le> 35"
    by (simp add: accuracyOf_def example_fix_def)
  have h8: "tripIdRef example_trip \<noteq> None" by (simp add: example_trip_def)
  from raw_speed_from_displacement [OF h1 h2 h3 h4 h5 h6 h7] h8
  have "speed (last (tripLocationBuffer (fst (onLocation (example_fix None 2) 0 example_trip))))
       = distanceKm 0 0 0 0.001 / (2000 / 1000 / 3600)"
    by (simp add: example_time example_prev_def)
  then show ?thesis using h1 h4 h5 h6 h7 h8 by simp
qed

text \<open>
  Claim C3 as stated fails when the device reports a speed: the same fix with a device speed
  of 0 m/s meets the three conditions, yet its raw speed is 0 and not the (non-zero)
  distance over time.
\<close>

theorem raw_speed_prefers_device_counterexample:
  "accuracyOf (example_fix (Some 0) 2) \<le> 35
   \<and> sampleTime (example_fix (Some 0) 2) 0 - time example_prev \<ge> 1500
   \<and> distanceKm (lat example_prev) (lng example_prev) 0 0.001 \<ge> 0.015
   \<and> rawSpeed (Some example_prev) 0 0.001 (sampleTime (example_fix (Some 0) 2) 0)
        (accuracyOf (example_fix (Some 0) 2)) (coordsSpeedKmh (example_fix (Some 0) 2)) = 0
   \<and> speed (last (tripLocationBuffer (fst (onLocation (example_fix (Some 0) 2) 0 example_trip)))) = 0
   \<and> distanceKm (lat example_prev) (lng example_prev) 0 0.001
        / (real_of_int (sampleTime (example_fix (Some 0) 2) 0 - time example_prev) / 1000 / 3600)
       \<noteq> 0"
proof -
  have c: "coordsSpeedKmh (example_fix (Some 0) 2) = Some 0"
    by (simp add: coordsSpeedKmh_def example_fix_def)
  have h2: "latitude (coords (example_fix (Some 0) 2)) = Some 0"
    and h3: "longitude (coords (example_fix (Some 0) 2)) = Some 0.001"
    by (simp_all add: example_fix_def)
  have h5: "sampleTime (example_fix (Some 0) 2) 0 - time example_prev \<ge> 1500"
    by (simp add: example_time example_prev_def)
  have h6: "distanceKm (lat example_prev) (lng example_prev) 0 0.001 \<ge> 0.015"
    using distanceKm_example_bounds(1) by (simp add: example_prev_def)
  have h7: "accuracyOf (example_fix (Some 0) 2) \<le> 35"
    by (simp add: accuracyOf_def example_fix_def)
  have r: "rawSpeed prev la lo t a (coordsSpeedKmh (example_fix (Some 0) 2)) = 0" for prev la lo t a
    unfolding c by (simp add: rawSpeed_def)
  have b: "speed (last (tripLocationBuffer (fst (onLocation (example_fix (Some 0) 2) 0 example_trip)))) = 0"
    unfolding onLocation_numeric [OF h2 h3]
    by (simp add: processFix_buffer example_trip_def r)
  have n: "distanceKm (lat example_prev) (lng example_prev) 0 0.001
        / (real_of_int (sampleTime (example_fix (Some 0) 2) 0 - time example_prev) / 1000 / 3600)
       \<noteq> 0"
    using h6 by (simp add: example_time example_prev_def)
  show ?thesis using h5 h6 h7 r b n by simp
qed

text \<open>
  Claim C10. On an active trip, a fix without a non-negative device speed for which the
  conditions for a displacement speed do not all hold has raw speed 0; the point is still
  appended to the trip buffer with speed 0, 0 is added to the running sum and the count
  grows by one, so a positive trip average becomes strictly smaller.
\<close>

theorem rejected_sample_counts_as_zero:
  assumes "tripIdRef s \<noteq> None"
    and "latitude (coords p) = Some la" and "longitude (coords p) = Some lo"
    and "coordsSpeedKmh p = None"
    and "\<not> (\<exists>pv. lastLocationRef s = Some pv
              \<and> sampleTime p dn - time pv \<ge> 1500
              \<and> distanceKm (lat pv) (lng pv) la lo \<ge> 0.015
              \<and> (accuracyOf p \<le> 35 \<or> accuracyOf p > 500))"
  shows "rawSpeed (lastLocationRef s) la lo (sampleTime p dn) (accuracyOf p) (coordsSpeedKmh p) = 0
       \<and> tripLocationBuffer (fst (onLocation p dn s)) =
           tripLocationBuffer s @ [\<lparr>lat = la, lng = lo, time = sampleTime p dn, speed = 0\<rparr>]
       \<and> speedSumRef (fst (onLocation p dn s)) = speedSumRef s + 0
       \<and> speedCountRef (fst (onLocation p dn s)) = speedCountRef s + 1
       \<and> (0 < speedSumRef s \<and> 0 < speedCountRef s \<longrightarrow>
            speedSumRef (fst (onLocation p dn s)) / real (speedCountRef (fst (onLocation p dn s)))
              < speedSumRef s / real (speedCountRef s))"
proof -
  have r: "rawSpeed (lastLocationRef s) la lo (sampleTime p dn) (accuracyOf p) (coordsSpeedKmh p) = 0"
    unfolding assms(4) by (rule rawSpeed_rejected) (use assms(5) in blast)
  have b: "tripLocationBuffer (fst (onLocation p dn s)) =
           tripLocationBuffer s @ [\<lparr>lat = la, lng = lo, time = sampleTime p dn, speed = 0\<rparr>]"
    using r by (simp add: onLocation_numeric [OF assms(2,3)] processFix_buffer [OF assms(1)])
  have sm: "speedSumRef (fst (onLocation p dn s)) = speedSumRef s"
    using r by (simp add: onLocation_numeric [OF assms(2,3)] processFix_sum(1) [OF assms(1)])
  have cnt: "speedCountRef (fst (onLocation p dn s)) = speedCountRef s + 1"
    by (simp add: onLocation_numeric [OF assms(2,3)] processFix_sum(2) [OF assms(1)])
  have avg: "0 < speedSumRef s \<and> 0 < speedCountRef s \<longrightarrow>
      speedSumRef s / real (speedCountRef s + 1) < speedSumRef s / real (speedCountRef s)"
    by (simp add: frac_less2)
  show ?thesis using r b sm cnt avg by simp
qed

text \<open>
  A fix one second after the previous one is rejected for its spacing and counted as 0.
\<close>

theorem rejected_sample_counts_as_zero_witness:
  "tripIdRef example_moving \<noteq> None
   \<and> coordsSpeedKmh (example_fix None 1) = None
   \<and> sampleTime (example_fix None 1) 0 = 1000
   \<and> tripLocationBuffer (fst (onLocation (example_fix None 1) 0 example_moving)) =
       [\<lparr>lat = 0, lng = 0, time = 0, speed = 50\<rparr>,
        \<lparr>lat = 0, lng = 0.001, time = 1000, speed = 0\<rparr>]
   \<and> speedSumRef (fst (onLocation (example_fix None 1) 0 example_moving)) = 90
   \<and> speedCountRef (fst (onLocation (example_fix None 1) 0 example_moving)) = 3
   \<and> speedSumRef (fst (onLocation (example_fix None 1) 0 example_moving))
        / real (speedCountRef (fst (onLocation (example_fix None 1) 0 example_moving))) < 90 / 2"
proof -
  have h1: "tripIdRef example_moving \<noteq> None"
    by (simp add: example_moving_def example_trip_def)
  have h2: "latitude (coords (example_fix None 1)) = Some 0"
    and h3: "longitude (coords (example_fix None 1)) = Some 0.001"
    by (simp_all add: example_fix_def)
  have h4: "coordsSpeedKmh (example_fix None 1) = None"
    by (simp add: coordsSpeedKmh_def example_fix_def)
  have t: "sampleTime (example_fix None 1) 0 = 1000"
    by (simp add: sampleTime_def example_fix_def)
  have h5: "\<not> (\<exists>pv. lastLocationRef example_moving = Some pv
              \<and> sampleTime (example_fix None 1) 0 - time pv \<ge> 1500
              \<and> distanceKm (lat pv) (lng pv) 0 0.001 \<ge> 0.015
              \<and> (accuracyOf (example_fix None 1) \<le> 35 \<or> accuracyOf (example_fix None 1) > 500))"
    by (simp add: t example_moving_def example_trip_def example_prev_def)
  have s: "speedSumRef example_moving = 90" "speedCountRef example_moving = 2"
    "tripLocationBuffer example_moving = [\<lparr>lat = 0, lng = 0, time = 0, speed = 50\<rparr>]"
    by (simp_all add: example_moving_def)
  from rejected_sample_counts_as_zero [OF h1 h2 h3 h4 h5]
  show ?thesis using h1 h4 unfolding t s by simp
qed

section \<open>Trip start and end\<close>

lemma handleEndTrip_idle: "tripIdRef s = None \<Longrightarrow> handleEndTrip now r s = s"
  by (simp add: handleEndTrip_def)

text \<open>A handler created while a start was pending returns at once.\<close>

lemma handleStartTrip_seen: "handleStartTrip True r s = s"
  by (simp add: handleStartTrip_def handleStartTrip_begin_def)

text \<open>Any other handler, with a known location and a successful \<open>createTrip\<close>, resets the
  aggregates; it does not look at \<open>tripIdRef\<close> or at the status.\<close>

lemma handleStartTrip_created:
  "lastLocationRef s \<noteq> None \<Longrightarrow>
   handleStartTrip False (Created tid) s =
     (resetAggregates tid (s\<lparr>error := None, isStartingTrip := True\<rparr>))
       \<lparr>isStartingTrip := False, autoStartInProgressRef := False\<rparr>"
  by (auto simp: handleStartTrip_def handleStartTrip_begin_def handleStartTrip_resume_def Let_def)

text \<open>
  Claim C1. Ending a trip while none is running is a no-op (\<open>handleEndTrip_idle\<close>), but
  starting one while a trip is running is not: \<open>handleStartTrip\<close> has no check of the trip
  state, unlike \<open>handleEndTrip\<close>. On a running trip with two samples it empties the buffer,
  zeroes the sum and the count and installs the new trip identifier.
\<close>

theorem start_while_active_resets:
  "status example_moving = driving
   \<and> tripIdRef example_moving = Some 1
   \<and> speedCountRef example_moving = 2
   \<and> speedSumRef example_moving = 90
   \<and> tripLocationBuffer example_moving = [\<lparr>lat = 0, lng = 0, time = 0, speed = 50\<rparr>]
   \<and> tripIdRef (handleStartTrip False (Created 2) example_moving) = Some 2
   \<and> speedCountRef (handleStartTrip False (Created 2) example_moving) = 0
   \<and> speedSumRef (handleStartTrip False (Created 2) example_moving) = 0
   \<and> tripLocationBuffer (handleStartTrip False (Created 2) example_moving) = []"
  by (simp add: example_moving_def example_trip_def initial_state_def handleStartTrip_def
      handleStartTrip_begin_def handleStartTrip_resume_def resetAggregates_def)

text \<open>What a fix of the cruise adds to a running trip.\<close>

lemma cruise_coords:
  "latitude (coords (example_at lo v ts)) = Some 0"
  "longitude (coords (example_at lo v ts)) = Some lo"
  "coordsSpeedKmh (example_at lo 10 ts) = Some 36"
  by (simp_all add: example_at_def coordsSpeedKmh_def)

lemma cruise_recorded:
  assumes "tripIdRef s \<noteq> None"
  shows "tripIdRef (step (example_cruise ts) s) = tripIdRef s"
    and "speedCountRef (step (example_cruise ts) s) = speedCountRef s + 1"
    and "speedSumRef (step (example_cruise ts) s) = speedSumRef s + 36"
    and "length (tripLocationBuffer (step (example_cruise ts) s))
          = length (tripLocationBuffer s) + 1"
  using assms
  by (simp_all add: example_cruise_def onLocation_numeric [OF cruise_coords(1,2)]
      processFix_sum processFix_buffer cruise_coords(3) rawSpeed_def)

lemma example_tapped_pending:
  "isStartingTrip example_tapped
   \<and> snd (handleStartTrip_begin False (run [example_cruise 1] initial_state))"
  by (simp add: example_tapped_def example_cruise_def example_at_def
      initial_state_def handleStartTrip_begin_def
      onLocation_def processFix_def rawSpeed_def coordsSpeedKmh_def accuracyOf_def
      sampleTime_def updateSpeed_def updateLastLocation_def autoStart_def tripBlock_def
      mathRound_def Let_def)

lemma example_auto_started:
  "autoStartInProgressRef (run [example_cruise 2, example_cruise 3] example_tapped)"
  by (simp add: example_tapped_def example_cruise_def example_at_def
      initial_state_def handleStartTrip_begin_def
      onLocation_def processFix_def rawSpeed_def coordsSpeedKmh_def accuracyOf_def
      sampleTime_def updateSpeed_def updateLastLocation_def autoStart_def tripBlock_def
      mathRound_def distanceKm_same Let_def)

lemma resume_created:
  "tripIdRef (handleStartTrip_resume (Created tid) s) = Some tid"
  "speedCountRef (handleStartTrip_resume (Created tid) s) = 0"
  "speedSumRef (handleStartTrip_resume (Created tid) s) = 0"
  "tripLocationBuffer (handleStartTrip_resume (Created tid) s) = []"
  by (simp_all add: handleStartTrip_resume_def resetAggregates_def)

text \<open>
  The same happens when the handler is called while idle and resumes on a running trip. A
  start from the button is pending when the location callback starts a trip of its own (its
  handler reads \<open>isStartingTrip\<close> as false); the first \<open>createTrip\<close> to settle starts trip 1,
  two fixes are recorded, and the second one to settle wipes them.
\<close>

lemma pending_start_resets_running_trip:
  "isStartingTrip example_tapped
   \<and> snd (handleStartTrip_begin False (run [example_cruise 1] initial_state))
   \<and> autoStartInProgressRef (run [example_cruise 2, example_cruise 3] example_tapped)
   \<and> tripIdRef example_raced = Some 1
   \<and> speedCountRef example_raced = 2
   \<and> speedSumRef example_raced = 72
   \<and> length (tripLocationBuffer example_raced) = 2
   \<and> tripIdRef (handleStartTrip_resume (Created 2) example_raced) = Some 2
   \<and> speedCountRef (handleStartTrip_resume (Created 2) example_raced) = 0
   \<and> speedSumRef (handleStartTrip_resume (Created 2) example_raced) = 0
   \<and> tripLocationBuffer (handleStartTrip_resume (Created 2) example_raced) = []"
proof -
  define s5 where "s5 = handleStartTrip_resume (Created 1)
          (run [example_cruise 2, example_cruise 3] example_tapped)"
  have e: "example_raced = step (example_cruise 5) (step (example_cruise 4) s5)"
    by (simp add: example_raced_def s5_def)
  have s5: "tripIdRef s5 = Some 1" "speedCountRef s5 = 0" "speedSumRef s5 = 0"
    "tripLocationBuffer s5 = []"
    by (simp_all add: s5_def resume_created)
  have a: "tripIdRef s5 \<noteq> None" by (simp add: s5)
  have b: "tripIdRef (step (example_cruise 4) s5) \<noteq> None"
    using a by (simp add: cruise_recorded(1))
  have r: "tripIdRef example_raced = Some 1" "speedCountRef example_raced = 2"
    "speedSumRef example_raced = 72" "length (tripLocationBuffer example_raced) = 2"
    unfolding e
    by (simp_all add: cruise_recorded [OF b] cruise_recorded [OF a] s5)
  show ?thesis
    using example_tapped_pending example_auto_started r by (simp add: resume_created)
qed

text \<open>
  The start of a trip establishes the consistency of the speeding state, and the limit
  callback keeps it (the start time of an episode is a clock value, never 0).
\<close>

lemma resetAggregates_consistent: "speeding_consistent (resetAggregates tid s)"
  by (simp add: speeding_consistent_def resetAggregates_def)

lemma onSpeedLimit_consistent:
  "speeding_consistent s \<Longrightarrow> speedingStartTimeRef s \<noteq> Some 0 \<Longrightarrow>
   speeding_consistent (onSpeedLimit d v t s)"
  by (auto simp: speeding_consistent_def onSpeedLimit_def Let_def truthyTime_def
      split: option.splits if_splits js_limit.splits)

text \<open>
  Claim C2. The speeding state is consistent after the start of a trip and after the limit
  callback, but not after \<open>handleEndTrip\<close> closes a running episode: it adds the duration
  and clears the flag, and leaves the start time set. At a trip that started speeding at
  time 10000 and ends at time 20000, the flag is false and the start time is still 10000.
\<close>

theorem end_trip_keeps_episode_start:
  "speeding_consistent example_speeding
   \<and> tripIdRef example_speeding = Some 1
   \<and> wasSpeedingRef example_speeding
   \<and> speedingStartTimeRef example_speeding = Some 10000
   \<and> \<not> wasSpeedingRef (handleEndTrip 20000 (Ended (Some 80)) example_speeding)
   \<and> speedingStartTimeRef (handleEndTrip 20000 (Ended (Some 80)) example_speeding) = Some 10000
   \<and> speedingDurationRef (handleEndTrip 20000 (Ended (Some 80)) example_speeding) = 10
   \<and> \<not> speeding_consistent (handleEndTrip 20000 (Ended (Some 80)) example_speeding)"
  by (simp add: example_speeding_def example_located_def initial_state_def example_prev_def
      handleStartTrip_def handleStartTrip_begin_def handleStartTrip_resume_def
      resetAggregates_def onSpeedLimit_def defaultInfo_def LEGAL_DEFAULT_def
      handleEndTrip_def truthyTime_def speeding_consistent_def Let_def)

section \<open>Crash detection\<close>

lemma confirmCrash_sticky:
  "crashDetectedRef s \<Longrightarrow> crashDetectedRef (confirmCrash la lo s)"
  by (simp add: confirmCrash_def)

lemma confirmCrash_recorded:
  "\<not> crashDetectedRef s \<Longrightarrow> crashDetectedRef (confirmCrash la lo s) \<Longrightarrow>
   \<not> speedBasedCrashRef (confirmCrash la lo s) \<and> \<not> sensorBasedCrashRef (confirmCrash la lo s)
   \<and> crashLatRef (confirmCrash la lo s) = Some la \<and> crashLngRef (confirmCrash la lo s) = Some lo"
  by (simp add: confirmCrash_def split: if_splits)

text \<open>The trip block is: some state with the same crash flag, then \<open>confirmCrash\<close>, then
  at most an update of the time of the last limit check.\<close>

lemma tripBlock_shape:
  "fst (tripBlock p prev la lo t v ps s) = s
   \<or> (\<exists>s2. crashDetectedRef s2 = crashDetectedRef s
         \<and> (fst (tripBlock p prev la lo t v ps s) = confirmCrash la lo s2
            \<or> fst (tripBlock p prev la lo t v ps s)
                = (confirmCrash la lo s2)\<lparr>lastSpeedCheckTimeRef := t\<rparr>))"
proof (cases "tripIdRef s = None")
  case True
  then show ?thesis by (simp add: tripBlock_def)
next
  case False
  define s1 where "s1 = s\<lparr>tripLocationBuffer := tripLocationBuffer s @
                      [\<lparr>lat = la, lng = lo, time = t, speed = v\<rparr>]\<rparr>"
  define s2 where "s2 = (case prev of
                     None \<Rightarrow> s1
                   | Some pv \<Rightarrow>
                       if speedCountRef s1 \<ge> 2
                       then detectSpeedCrash ps v (real_of_int (t - time pv) / 1000)
                              (detectHarsh pv p t la lo v ps s1)
                       else s1)"
  have c: "crashDetectedRef s2 = crashDetectedRef s"
    unfolding s2_def s1_def by (simp split: option.splits)
  have "fst (tripBlock p prev la lo t v ps s) = confirmCrash la lo s2
      \<or> fst (tripBlock p prev la lo t v ps s) = (confirmCrash la lo s2)\<lparr>lastSpeedCheckTimeRef := t\<rparr>"
    unfolding s2_def s1_def tripBlock_def Let_def using False by auto
  with c show ?thesis by blast
qed

lemma tripBlock_sticky:
  "crashDetectedRef s \<Longrightarrow> crashDetectedRef (fst (tripBlock p prev la lo t v ps s))"
  using tripBlock_shape [of p prev la lo t v ps s] confirmCrash_sticky by auto

lemma tripBlock_recorded:
  assumes "\<not> crashDetectedRef s" "crashDetectedRef (fst (tripBlock p prev la lo t v ps s))"
  shows "\<not> speedBasedCrashRef (fst (tripBlock p prev la lo t v ps s))
   \<and> \<not> sensorBasedCrashRef (fst (tripBlock p prev la lo t v ps s))
   \<and> crashLatRef (fst (tripBlock p prev la lo t v ps s)) = Some la
   \<and> crashLngRef (fst (tripBlock p prev la lo t v ps s)) = Some lo"
proof -
  from tripBlock_shape [of p prev la lo t v ps s] assms
  obtain s2 where s2: "crashDetectedRef s2 = crashDetectedRef s"
    "fst (tripBlock p prev la lo t v ps s) = confirmCrash la lo s2
     \<or> fst (tripBlock p prev la lo t v ps s) = (confirmCrash la lo s2)\<lparr>lastSpeedCheckTimeRef := t\<rparr>"
    by auto
  have "crashDetectedRef (confirmCrash la lo s2)" using s2(2) assms(2) by auto
  from confirmCrash_recorded [OF _ this] s2(1) assms(1) s2(2) show ?thesis by auto
qed

lemma processFix_pre:
  "\<exists>prev v ps s3. crashDetectedRef s3 = crashDetectedRef s
     \<and> processFix p la lo t s = tripBlock p prev la lo t v ps s3"
proof -
  have "crashDetectedRef
     (autoStart v t (updateLastLocation prev la lo t (updateSpeed v (s\<lparr>error := None\<rparr>))))
     = crashDetectedRef s" for v prev
    by simp
  then show ?thesis unfolding processFix_def Let_def by blast
qed

lemma onLocation_sticky:
  "crashDetectedRef s \<Longrightarrow> crashDetectedRef (fst (onLocation p dn s))"
proof -
  assume c: "crashDetectedRef s"
  have "crashDetectedRef (fst (processFix p la lo t s))" for la lo t
    using processFix_pre [of s p la lo t] tripBlock_sticky c by metis
  then show ?thesis by (simp add: onLocation_def split: option.splits) (use c in simp)
qed

lemma onLocation_recorded:
  assumes "\<not> crashDetectedRef s" "crashDetectedRef (fst (onLocation p dn s))"
  shows "\<not> speedBasedCrashRef (fst (onLocation p dn s))
   \<and> \<not> sensorBasedCrashRef (fst (onLocation p dn s))
   \<and> (\<exists>la lo. latitude (coords p) = Some la \<and> longitude (coords p) = Some lo
        \<and> crashLatRef (fst (onLocation p dn s)) = Some la
        \<and> crashLngRef (fst (onLocation p dn s)) = Some lo)"
proof -
  from assms obtain la lo where
    n: "latitude (coords p) = Some la" "longitude (coords p) = Some lo"
    by (auto simp: onLocation_def split: option.splits)
  let ?t = "sampleTime p dn"
  have e: "onLocation p dn s = processFix p la lo ?t s" by (rule onLocation_numeric [OF n])
  from processFix_pre [of s p la lo ?t] obtain prev v ps s3 where
    s3: "crashDetectedRef s3 = crashDetectedRef s"
    "processFix p la lo ?t s = tripBlock p prev la lo ?t v ps s3" by blast
  have "\<not> crashDetectedRef s3" "crashDetectedRef (fst (tripBlock p prev la lo ?t v ps s3))"
    using assms s3 e by simp_all
  from tripBlock_recorded [OF this] show ?thesis using n e s3(2) by simp
qed

lemma other_events_crash [simp]:
  "crashDetectedRef (onAccelerometer x y z s) = crashDetectedRef s"
  "crashDetectedRef (crashTimeoutFired s) = crashDetectedRef s"
  "crashDetectedRef (onSpeedLimit d v t s) = crashDetectedRef s"
  by (simp_all add: onAccelerometer_def crashTimeoutFired_def onSpeedLimit_def Let_def
      split: option.splits js_limit.splits)

lemma step_sticky: "crashDetectedRef s \<Longrightarrow> crashDetectedRef (step e s)"
  by (cases e) (simp_all add: onLocation_sticky)

lemma run_sticky: "crashDetectedRef s \<Longrightarrow> crashDetectedRef (run es s)"
  by (induction es arbitrary: s) (simp_all add: step_sticky)

lemma crash_transitions_after: "crashDetectedRef s \<Longrightarrow> crash_transitions es s = 0"
  by (induction es arbitrary: s) (simp_all add: step_sticky)

lemma crash_transitions_le: "crash_transitions es s \<le> 1"
proof (induction es arbitrary: s)
  case Nil
  then show ?case by simp
next
  case (Cons e es)
  show ?case
  proof (cases "\<not> crashDetectedRef s \<and> crashDetectedRef (step e s)")
    case True
    then show ?thesis by (simp add: crash_transitions_after)
  next
    case False
    then show ?thesis using Cons [of "step e s"] by auto
  qed
qed

lemma step_recorded:
  assumes "\<not> crashDetectedRef s" "crashDetectedRef (step e s)"
  shows "\<not> speedBasedCrashRef (step e s) \<and> \<not> sensorBasedCrashRef (step e s)
   \<and> (\<exists>p dn la lo. e = Location p dn
        \<and> latitude (coords p) = Some la \<and> longitude (coords p) = Some lo
        \<and> crashLatRef (step e s) = Some la \<and> crashLngRef (step e s) = Some lo)"
proof (cases e)
  case (Location p dn)
  with assms onLocation_recorded [of s p dn] show ?thesis by auto
qed (use assms in simp_all)

text \<open>
  Claim C8. Along any sequence of location fixes, accelerometer samples, timer expiries and
  limit callbacks of one trip, the crash flag goes from false to true at most once and
  stays true; and the event that records the crash is a location fix, after which both
  signal flags are false and the crash coordinates are those of the fix.
\<close>

theorem crash_at_most_once:
  "crash_transitions es s \<le> 1
   \<and> (crashDetectedRef s \<longrightarrow> crashDetectedRef (run es s))
   \<and> (\<not> crashDetectedRef s \<and> crashDetectedRef (step e s) \<longrightarrow>
        \<not> speedBasedCrashRef (step e s) \<and> \<not> sensorBasedCrashRef (step e s)
        \<and> (\<exists>p dn la lo. e = Location p dn
             \<and> latitude (coords p) = Some la \<and> longitude (coords p) = Some lo
             \<and> crashLatRef (step e s) = Some la \<and> crashLngRef (step e s) = Some lo))"
  using crash_transitions_le [of es s] run_sticky [of s es] step_recorded [of s e] by blast

lemma onAccelerometer_z:
  "0 \<le> z \<Longrightarrow> onAccelerometer 0 0 z s =
     (if z > 39 \<and> tripIdRef s \<noteq> None
      then s\<lparr>accelerometerMagnitudeRef := z, sensorBasedCrashRef := True\<rparr>
      else s\<lparr>accelerometerMagnitudeRef := z\<rparr>)"
  by (simp add: onAccelerometer_def Let_def)

lemmas location_defs = onLocation_def processFix_def rawSpeed_def coordsSpeedKmh_def
  accuracyOf_def sampleTime_def updateSpeed_def updateLastLocation_def autoStart_def
  tripBlock_def detectHarsh_def isGpsGood_def harshDecision_def applyCooldown_def
  recordBrake_def recordAccel_def detectSpeedCrash_def confirmCrash_def mathRound_def

lemma example_impact:
  "step (Accelerometer 0 0 40) example_moving =
     example_moving\<lparr>accelerometerMagnitudeRef := 40, sensorBasedCrashRef := True\<rparr>"
  using onAccelerometer_z [of 40 example_moving]
  by (simp add: example_moving_def example_trip_def)

lemma example_crash:
  "crashDetectedRef (step (Location example_stop 0)
      (example_moving\<lparr>accelerometerMagnitudeRef := 40, sensorBasedCrashRef := True\<rparr>))"
  by (simp add: location_defs Let_def example_stop_def example_moving_def example_trip_def
      initial_state_def example_prev_def distanceKm_same)

text \<open>
  An impact of 40 m per second squared followed by a stop from 50 km/h records the crash once; repeating
  both does not record it again.
\<close>

theorem crash_at_most_once_witness:
  "\<not> crashDetectedRef (step (Accelerometer 0 0 40) example_moving)
   \<and> crashDetectedRef (step (Location example_stop 0) (step (Accelerometer 0 0 40) example_moving))
   \<and> \<not> speedBasedCrashRef (step (Location example_stop 0) (step (Accelerometer 0 0 40) example_moving))
   \<and> \<not> sensorBasedCrashRef (step (Location example_stop 0) (step (Accelerometer 0 0 40) example_moving))
   \<and> crashLatRef (step (Location example_stop 0) (step (Accelerometer 0 0 40) example_moving)) = Some 0
   \<and> crash_transitions
        [Accelerometer 0 0 40, Location example_stop 0, Accelerometer 0 0 40, Location example_stop 0]
        example_moving \<le> 1"
proof -
  let ?s = "step (Accelerometer 0 0 40) example_moving"
  have a: "\<not> crashDetectedRef ?s"
    unfolding example_impact
    by (simp add: example_moving_def example_trip_def initial_state_def)
  have b: "crashDetectedRef (step (Location example_stop 0) ?s)"
    unfolding example_impact by (rule example_crash)
  have c: "latitude (coords example_stop) = Some 0" by (simp add: example_stop_def)
  from crash_at_most_once [of
      "[Accelerometer 0 0 40, Location example_stop 0, Accelerometer 0 0 40, Location example_stop 0]"
      example_moving "Location example_stop 0"]
    crash_at_most_once [of "[]" "?s" "Location example_stop 0"] a b c
  show ?thesis by auto
qed

section \<open>Harsh event cooldown\<close>

lemma spaced_snoc:
  "spaced (es @ [e]) =
     (spaced es \<and> (\<forall>e' \<in> set es. ev_type e' = ev_type e \<longrightarrow>
                      3000 \<le> ev_timestamp e - ev_timestamp e'))"
  by (induction es) auto

lemma spaced_nth:
  "spaced es \<Longrightarrow> i < j \<Longrightarrow> j < length es \<Longrightarrow> ev_type (es ! i) = ev_type (es ! j) \<Longrightarrow>
   3000 \<le> ev_timestamp (es ! j) - ev_timestamp (es ! i)"
proof (induction es arbitrary: i j)
  case Nil
  then show ?case by simp
next
  case (Cons e es)
  obtain j' where j: "j = Suc j'" using Cons.prems(2) by (cases j) auto
  show ?case
  proof (cases i)
    case 0
    have "es ! j' \<in> set es" using Cons.prems(3) j by simp
    then show ?thesis using Cons.prems(1,4) 0 j by auto
  next
    case (Suc i')
    then show ?thesis using Cons j by auto
  qed
qed

lemma cooldown_inv_cong:
  "harshEventsRef s' = harshEventsRef s \<Longrightarrow>
   lastHarshBrakeTimeRef s' = lastHarshBrakeTimeRef s \<Longrightarrow>
   lastHarshAccelTimeRef s' = lastHarshAccelTimeRef s \<Longrightarrow>
   cooldown_inv s' = cooldown_inv s"
  by (simp add: cooldown_inv_def lastOfKind_def)

lemma recordBrake_inv:
  assumes "cooldown_inv s" "3000 \<le> now - lastHarshBrakeTimeRef s"
  shows "cooldown_inv (recordBrake now la lo v s)"
proof -
  have old: "\<forall>e \<in> set (harshEventsRef s). ev_type e = Braking \<longrightarrow>
      ev_timestamp e \<le> lastHarshBrakeTimeRef s"
    using assms(1) by (auto simp: cooldown_inv_def lastOfKind_def)
  show ?thesis
    using assms old
    by (auto simp: cooldown_inv_def recordBrake_def spaced_snoc lastOfKind_def)
qed

lemma recordAccel_inv:
  assumes "cooldown_inv s" "3000 \<le> now - lastHarshAccelTimeRef s"
  shows "cooldown_inv (recordAccel now la lo v s)"
proof -
  have old: "\<forall>e \<in> set (harshEventsRef s). ev_type e = Acceleration \<longrightarrow>
      ev_timestamp e \<le> lastHarshAccelTimeRef s"
    using assms(1) by (auto simp: cooldown_inv_def lastOfKind_def)
  show ?thesis
    using assms old
    by (auto simp: cooldown_inv_def recordAccel_def spaced_snoc lastOfKind_def)
qed

lemma applyCooldown_inv:
  "cooldown_inv s \<Longrightarrow> cooldown_inv (applyCooldown cb ca now la lo v s)"
  by (simp add: applyCooldown_def Let_def recordBrake_inv recordAccel_inv)

lemma detectHarsh_inv:
  "cooldown_inv s \<Longrightarrow> cooldown_inv (detectHarsh pv p t la lo v ps s)"
  by (simp add: detectHarsh_def Let_def applyCooldown_inv)

lemma tripBlock_inv:
  assumes "cooldown_inv s"
  shows "cooldown_inv (fst (tripBlock p prev la lo t v ps s))"
proof (cases "tripIdRef s = None")
  case True
  then show ?thesis using assms by (simp add: tripBlock_def)
next
  case False
  define s1 where "s1 = s\<lparr>tripLocationBuffer := tripLocationBuffer s @
                      [\<lparr>lat = la, lng = lo, time = t, speed = v\<rparr>]\<rparr>"
  define s2 where "s2 = (case prev of
                     None \<Rightarrow> s1
                   | Some pv \<Rightarrow>
                       if speedCountRef s1 \<ge> 2
                       then detectSpeedCrash ps v (real_of_int (t - time pv) / 1000)
                              (detectHarsh pv p t la lo v ps s1)
                       else s1)"
  have i1: "cooldown_inv s1"
    using assms cooldown_inv_cong [of s1 s] by (simp add: s1_def)
  have i2: "cooldown_inv s2"
  proof (cases prev)
    case None
    then show ?thesis using i1 by (simp add: s2_def)
  next
    case (Some pv)
    have "cooldown_inv (detectSpeedCrash ps v d (detectHarsh pv p t la lo v ps s1))" for d
      using detectHarsh_inv [OF i1, of pv p t la lo v ps]
        cooldown_inv_cong [of "detectSpeedCrash ps v d (detectHarsh pv p t la lo v ps s1)"
          "detectHarsh pv p t la lo v ps s1"]
      by simp
    then show ?thesis using i1 Some by (simp add: s2_def)
  qed
  have i3: "cooldown_inv (confirmCrash la lo s2)"
    using i2 cooldown_inv_cong [of "confirmCrash la lo s2" s2] by simp
  have i4: "cooldown_inv ((confirmCrash la lo s2)\<lparr>lastSpeedCheckTimeRef := t\<rparr>)"
    using i3 cooldown_inv_cong [of "(confirmCrash la lo s2)\<lparr>lastSpeedCheckTimeRef := t\<rparr>"
        "confirmCrash la lo s2"] by simp
  have "fst (tripBlock p prev la lo t v ps s) = confirmCrash la lo s2
      \<or> fst (tripBlock p prev la lo t v ps s) = (confirmCrash la lo s2)\<lparr>lastSpeedCheckTimeRef := t\<rparr>"
    unfolding s2_def s1_def tripBlock_def Let_def using False by auto
  then show ?thesis using i3 i4 by auto
qed

lemma processFix_inv:
  assumes "cooldown_inv s"
  shows "cooldown_inv (fst (processFix p la lo t s))"
proof -
  have "cooldown_inv
     (autoStart v t (updateLastLocation prev la lo t (updateSpeed v (s\<lparr>error := None\<rparr>))))"
    for v prev
    using assms
      cooldown_inv_cong [of
        "autoStart v t (updateLastLocation prev la lo t (updateSpeed v (s\<lparr>error := None\<rparr>)))" s]
    by simp
  then show ?thesis unfolding processFix_def Let_def by (intro tripBlock_inv)
qed

lemma onLocation_inv: "cooldown_inv s \<Longrightarrow> cooldown_inv (fst (onLocation p dn s))"
  by (simp add: onLocation_def processFix_inv split: option.splits)

lemma other_events_harsh [simp]:
  "harshEventsRef (onAccelerometer x y z s) = harshEventsRef s"
  "lastHarshBrakeTimeRef (onAccelerometer x y z s) = lastHarshBrakeTimeRef s"
  "lastHarshAccelTimeRef (onAccelerometer x y z s) = lastHarshAccelTimeRef s"
  "harshEventsRef (crashTimeoutFired s) = harshEventsRef s"
  "lastHarshBrakeTimeRef (crashTimeoutFired s) = lastHarshBrakeTimeRef s"
  "lastHarshAccelTimeRef (crashTimeoutFired s) = lastHarshAccelTimeRef s"
  "harshEventsRef (onSpeedLimit d v t s) = harshEventsRef s"
  "lastHarshBrakeTimeRef (onSpeedLimit d v t s) = lastHarshBrakeTimeRef s"
  "lastHarshAccelTimeRef (onSpeedLimit d v t s) = lastHarshAccelTimeRef s"
  by (simp_all add: onAccelerometer_def crashTimeoutFired_def onSpeedLimit_def Let_def
      split: option.splits js_limit.splits)

lemma step_inv: "cooldown_inv s \<Longrightarrow> cooldown_inv (step e s)"
proof (cases e)
  case (Location p dn)
  then show "cooldown_inv s \<Longrightarrow> cooldown_inv (step e s)" by (simp add: onLocation_inv)
next
  case (Accelerometer x y z)
  then show "cooldown_inv s \<Longrightarrow> cooldown_inv (step e s)"
    using cooldown_inv_cong [of "onAccelerometer x y z s" s] by simp
next
  case CrashTimeout
  then show "cooldown_inv s \<Longrightarrow> cooldown_inv (step e s)"
    using cooldown_inv_cong [of "crashTimeoutFired s" s] by simp
next
  case (SpeedLimitResult d v t)
  then show "cooldown_inv s \<Longrightarrow> cooldown_inv (step e s)"
    using cooldown_inv_cong [of "onSpeedLimit d v t s" s] by simp
qed

lemma run_inv: "cooldown_inv s \<Longrightarrow> cooldown_inv (run es s)"
  by (induction es arbitrary: s) (simp_all add: step_inv)

lemma start_inv: "cooldown_inv (handleStartTrip_resume (Created tid) s)"
  by (simp add: cooldown_inv_def handleStartTrip_resume_def resetAggregates_def)

text \<open>A sample cannot be a candidate for both kinds.\<close>

lemma harshDecision_exclusive:
  "\<not> (fst (harshDecision g sf ps v) \<and> snd (harshDecision g sf ps v))"
proof -
  have "\<not> (30 \<le> (ps - v) / ps * 100 \<and> 30 \<le> (v - ps) / ps * 100)" if "ps > 0"
  proof -
    define a where "a = (ps - v) / ps * 100"
    define b where "b = (v - ps) / ps * 100"
    have "b = - a" unfolding a_def b_def using that by (simp add: field_simps)
    then have "\<not> (30 \<le> a \<and> 30 \<le> b)" by linarith
    then show ?thesis unfolding a_def b_def .
  qed
  then show ?thesis by (auto simp: harshDecision_def Let_def)
qed

lemma applyCooldown_suppressed:
  "\<not> (cb \<and> ca) \<Longrightarrow>
   (cb \<longrightarrow> now - lastHarshBrakeTimeRef s < 3000) \<Longrightarrow>
   (ca \<longrightarrow> now - lastHarshAccelTimeRef s < 3000) \<Longrightarrow>
   applyCooldown cb ca now la lo v s = s"
  by (auto simp: applyCooldown_def Let_def)

lemma moved_equator:
  assumes "l + 0.001 \<le> l'" "l' < l + 180"
  shows "0.005 \<le> distanceKm 0 l 0 l'"
proof -
  define x where "x = (l' - l) * pi"
  have "0.001 * 2 \<le> (l' - l) * pi"
    using assms(1) pi_ge_two by (intro mult_mono) auto
  then have x: "0.002 \<le> x" by (simp add: x_def)
  have "distanceKm 0 l 0 (l + (l' - l)) = 6371 * ((l' - l) * pi / 180)"
    using assms by (intro distanceKm_equator) auto
  then have "distanceKm 0 l 0 l' = 6371 * (x / 180)" by (simp add: x_def)
  then show ?thesis using x by simp
qed

lemma example_drive_events:
  "harshEventsRef (run example_drive (handleStartTrip_resume (Created 1) example_located)) =
     [\<lparr>ev_type = Braking, ev_timestamp = 5000, ev_latitude = 0, ev_longitude = 0.002, ev_speed = 0\<rparr>,
      \<lparr>ev_type = Braking, ev_timestamp = 9000, ev_latitude = 0, ev_longitude = 0.006, ev_speed = 0\<rparr>]"
  using moved_equator [of 0 "0.001"] moved_equator [of "0.001" "0.002"]
    moved_equator [of "0.002" "0.003"] moved_equator [of "0.003" "0.004"]
    moved_equator [of "0.004" "0.005"] moved_equator [of "0.005" "0.006"]
    onAccelerometer_z [of 15]
  by (simp add: example_drive_def example_at_def example_located_def example_prev_def
      initial_state_def handleStartTrip_resume_def resetAggregates_def location_defs Let_def)

lemma detectHarsh_suppressed:
  assumes "fst (harshDecision (isGpsGood (accuracy (coords p)) (t - time pv))
                 (accelerometerMagnitudeRef s > 13) ps v) \<longrightarrow> t - lastHarshBrakeTimeRef s < 3000"
    and "snd (harshDecision (isGpsGood (accuracy (coords p)) (t - time pv))
                 (accelerometerMagnitudeRef s > 13) ps v) \<longrightarrow> t - lastHarshAccelTimeRef s < 3000"
  shows "detectHarsh pv p t la lo v ps s = s"
  using assms harshDecision_exclusive
  by (simp add: detectHarsh_def Let_def applyCooldown_suppressed)

text \<open>
  Claim C9. In the list of harsh events of a trip, from its start through any sequence of
  events (with any time stamps), a later event is at least 3000 ms after every earlier event
  of the same kind. And a fix that is a braking candidate less than 3000 ms after the last
  counted braking (likewise for acceleration) leaves the state as it is: nothing is
  appended and nothing is counted.
\<close>

theorem harsh_event_cooldown:
  "(\<forall>i j. i < j \<and> j < length (harshEventsRef (run es (handleStartTrip_resume (Created tid) s0)))
        \<and> ev_type (harshEventsRef (run es (handleStartTrip_resume (Created tid) s0)) ! i)
          = ev_type (harshEventsRef (run es (handleStartTrip_resume (Created tid) s0)) ! j)
      \<longrightarrow> 3000 \<le> ev_timestamp (harshEventsRef (run es (handleStartTrip_resume (Created tid) s0)) ! j)
                 - ev_timestamp (harshEventsRef (run es (handleStartTrip_resume (Created tid) s0)) ! i))
   \<and> (fst (harshDecision (isGpsGood (accuracy (coords p)) (t - time pv))
              (accelerometerMagnitudeRef s > 13) ps v)
        \<and> t - lastHarshBrakeTimeRef s < 3000
      \<longrightarrow> detectHarsh pv p t la lo v ps s = s)
   \<and> (snd (harshDecision (isGpsGood (accuracy (coords p)) (t - time pv))
              (accelerometerMagnitudeRef s > 13) ps v)
        \<and> t - lastHarshAccelTimeRef s < 3000
      \<longrightarrow> detectHarsh pv p t la lo v ps s = s)"
proof -
  let ?h = "harshEventsRef (run es (handleStartTrip_resume (Created tid) s0))"
  let ?d = "harshDecision (isGpsGood (accuracy (coords p)) (t - time pv))
              (accelerometerMagnitudeRef s > 13) ps v"
  have "cooldown_inv (run es (handleStartTrip_resume (Created tid) s0))"
    by (intro run_inv start_inv)
  then have sp: "spaced ?h" by (simp add: cooldown_inv_def)
  have a: "\<forall>i j. i < j \<and> j < length ?h \<and> ev_type (?h ! i) = ev_type (?h ! j)
      \<longrightarrow> 3000 \<le> ev_timestamp (?h ! j) - ev_timestamp (?h ! i)"
    using spaced_nth [OF sp] by blast
  have x: "\<not> (fst ?d \<and> snd ?d)" by (rule harshDecision_exclusive)
  have b: "fst ?d \<and> t - lastHarshBrakeTimeRef s < 3000 \<longrightarrow> detectHarsh pv p t la lo v ps s = s"
    using x by (intro impI detectHarsh_suppressed) auto
  have c: "snd ?d \<and> t - lastHarshAccelTimeRef s < 3000 \<longrightarrow> detectHarsh pv p t la lo v ps s = s"
    using x by (intro impI detectHarsh_suppressed) auto
  show ?thesis using a b c by blast
qed

text \<open>
  The drive records the braking at 5 s and at 9 s, not the one at 7 s; and the detection
  block, run on that fix one second after the previous one, leaves a trip whose last counted
  braking was at 5 s as it is.
\<close>

theorem harsh_event_cooldown_witness:
  "harshEventsRef (run example_drive (handleStartTrip_resume (Created 1) example_located)) =
     [\<lparr>ev_type = Braking, ev_timestamp = 5000, ev_latitude = 0, ev_longitude = 0.002, ev_speed = 0\<rparr>,
      \<lparr>ev_type = Braking, ev_timestamp = 9000, ev_latitude = 0, ev_longitude = 0.006, ev_speed = 0\<rparr>]
   \<and> (3000::int) \<le> 9000 - 5000
   \<and> 0.5 \<le> real_of_int (7000 - time example_recent) / 1000
   \<and> real_of_int (7000 - time example_recent) / 1000 \<le> 5
   \<and> fst (harshDecision (isGpsGood (accuracy (coords (example_at 0.004 0 7))) (7000 - time example_recent))
            (accelerometerMagnitudeRef example_cooling > 13) 36 0)
   \<and> 7000 - lastHarshBrakeTimeRef example_cooling < 3000
   \<and> detectHarsh example_recent (example_at 0.004 0 7) 7000 0 0.004 0 36 example_cooling
       = example_cooling"
proof -
  let ?h = "harshEventsRef (run example_drive (handleStartTrip_resume (Created 1) example_located))"
  have w: "0.5 \<le> real_of_int (7000 - time example_recent) / 1000"
    "real_of_int (7000 - time example_recent) / 1000 \<le> 5"
    by (simp_all add: example_recent_def)
  have d: "fst (harshDecision (isGpsGood (accuracy (coords (example_at 0.004 0 7))) (7000 - time example_recent))
            (accelerometerMagnitudeRef example_cooling > 13) 36 0)"
    by (simp add: harshDecision_def isGpsGood_def example_at_def example_cooling_def)
  have c: "7000 - lastHarshBrakeTimeRef example_cooling < 3000"
    by (simp add: example_cooling_def)
  from harsh_event_cooldown [of example_drive 1 example_located "example_at 0.004 0 7" 7000
      example_recent example_cooling 36 0 0 "0.004"]
  have "(0 < (1::nat) \<and> 1 < length ?h \<and> ev_type (?h ! 0) = ev_type (?h ! 1)
          \<longrightarrow> 3000 \<le> ev_timestamp (?h ! 1) - ev_timestamp (?h ! 0))
     \<and> detectHarsh example_recent (example_at 0.004 0 7) 7000 0 0.004 0 36 example_cooling
       = example_cooling"
    using d c by blast
  then show ?thesis using w d c unfolding example_drive_events by simp
qed

end
